theory Spec2Isabelle
  imports Main "HOL-Library.Word" "HOL-Library.Sublist"
begin

unbundle bit_operations_syntax

section \<open>Strings\<close>

text \<open>
  Go strings are byte sequences; they are modelled as \<open>string\<close> (a list of 8-bit
  characters). \<open>strings.ToLower\<close> and \<open>strings.ToUpper\<close> are modelled on ASCII: the
  letters A-Z and a-z are mapped, every other byte is left as it is. On ASCII strings
  this is what Go computes. Go also maps non-ASCII runes that have a case mapping; this
  changes none of the comparisons below: a scheme returned by \<open>url.Parse\<close> is ASCII, a
  method with a non-ASCII byte is refused by \<open>http.NewRequest\<close> before any request is
  built, and no non-ASCII rune is lower-cased to a letter of a localhost alias.
\<close>

definition lower_byte :: "char \<Rightarrow> char" where
  "lower_byte c =
     (case map_of (zip ''ABCDEFGHIJKLMNOPQRSTUVWXYZ'' ''abcdefghijklmnopqrstuvwxyz'') c of
        Some d \<Rightarrow> d
      | None \<Rightarrow> c)"

definition upper_byte :: "char \<Rightarrow> char" where
  "upper_byte c =
     (case map_of (zip ''abcdefghijklmnopqrstuvwxyz'' ''ABCDEFGHIJKLMNOPQRSTUVWXYZ'') c of
        Some d \<Rightarrow> d
      | None \<Rightarrow> c)"

definition ToLower :: "string \<Rightarrow> string" where
  "ToLower s = map lower_byte s"

definition ToUpper :: "string \<Rightarrow> string" where
  "ToUpper s = map upper_byte s"

text \<open>\<open>strings.HasPrefix(s, p)\<close>.\<close>

definition HasPrefix :: "string \<Rightarrow> string \<Rightarrow> bool" where
  "HasPrefix s p = (take (length p) s = p)"

text \<open>\<open>strings.LastIndexByte\<close>: the index of the last occurrence, or -1.\<close>

fun LastIndexByte :: "string \<Rightarrow> char \<Rightarrow> int" where
  "LastIndexByte [] c = -1"
| "LastIndexByte (x # xs) c =
     (let r = LastIndexByte xs c
      in if r \<noteq> -1 then r + 1 else if x = c then 0 else -1)"

text \<open>Decimal and hexadecimal digits of a number, without leading zeros.\<close>

fun uitoa :: "nat \<Rightarrow> string" where
  "uitoa n =
     (if n < 10 then [''0123456789'' ! n]
      else uitoa (n div 10) @ [''0123456789'' ! (n mod 10)])"

fun appendHex :: "nat \<Rightarrow> string" where
  "appendHex n =
     (if n < 16 then [''0123456789abcdef'' ! n]
      else appendHex (n div 16) @ [''0123456789abcdef'' ! (n mod 16)])"

declare uitoa.simps [simp del] appendHex.simps [simp del]

definition itoa :: "int \<Rightarrow> string" where
  "itoa i = (if i < 0 then ''-'' @ uitoa (nat (- i)) else uitoa (nat i))"

section \<open>Addresses: Go's \<open>net.IP\<close> and \<open>net.IPNet\<close>\<close>

text \<open>
  \<open>net.IP\<close> is a byte slice: 4 bytes for an IPv4 address, 16 bytes for an IPv6 address
  or for an IPv4 address in its IPv4-in-IPv6 form. The methods of the standard library
  that \<open>isPrivateIP\<close> calls are written out here as the library defines them; a
  \<open>nil\<close> result is \<open>None\<close>.
\<close>

type_synonym byte = "8 word"
type_synonym IP = "byte list"

definition IPv6loopback :: IP where
  "IPv6loopback = [0, 0, 0, 0, 0, 0, 0, 0, 0, 0, 0, 0, 0, 0, 0, 1]"

definition v4InV6Prefix :: "byte list" where
  "v4InV6Prefix = [0, 0, 0, 0, 0, 0, 0, 0, 0, 0, 0xff, 0xff]"

definition To4 :: "IP \<Rightarrow> IP option" where
  "To4 ip =
     (if length ip = 4 then Some ip
      else if length ip = 16 \<and> list_all (\<lambda>b. b = 0) (take 10 ip)
              \<and> ip ! 10 = 0xff \<and> ip ! 11 = 0xff
      then Some (drop 12 ip)
      else None)"

definition Equal :: "IP \<Rightarrow> IP \<Rightarrow> bool" where
  "Equal ip x =
     (if length ip = length x then ip = x
      else if length ip = 4 \<and> length x = 16
      then take 12 x = v4InV6Prefix \<and> ip = drop 12 x
      else if length ip = 16 \<and> length x = 4
      then take 12 ip = v4InV6Prefix \<and> drop 12 ip = x
      else False)"

definition IsLoopback :: "IP \<Rightarrow> bool" where
  "IsLoopback ip =
     (case To4 ip of
        Some ip4 \<Rightarrow> ip4 ! 0 = 127
      | None \<Rightarrow> Equal ip IPv6loopback)"

definition IsLinkLocalUnicast :: "IP \<Rightarrow> bool" where
  "IsLinkLocalUnicast ip =
     (case To4 ip of
        Some ip4 \<Rightarrow> ip4 ! 0 = 169 \<and> ip4 ! 1 = 254
      | None \<Rightarrow> length ip = 16 \<and> ip ! 0 = 0xfe \<and> (ip ! 1) AND 0xc0 = 0x80)"

definition IsLinkLocalMulticast :: "IP \<Rightarrow> bool" where
  "IsLinkLocalMulticast ip =
     (case To4 ip of
        Some ip4 \<Rightarrow> ip4 ! 0 = 224 \<and> ip4 ! 1 = 0 \<and> ip4 ! 2 = 0
      | None \<Rightarrow> length ip = 16 \<and> ip ! 0 = 0xff \<and> (ip ! 1) AND 0x0f = 0x02)"

record IPNet =
  net_IP :: IP
  net_Mask :: "byte list"

text \<open>
  The loop of \<open>net.CIDRMask(ones, bits)\<close>: a mask of \<open>l\<close> bytes with \<open>n\<close> leading
  1 bits (\<open>l\<close> is \<open>bits / 8\<close>, and \<open>n\<close> is at most \<open>bits\<close>).
\<close>

fun maskBytes :: "nat \<Rightarrow> nat \<Rightarrow> byte list" where
  "maskBytes n l =
     (if l = 0 then []
      else if 8 \<le> n then 0xff # maskBytes (n - 8) (l - 1)
      else NOT (drop_bit n 0xff) # maskBytes 0 (l - 1))"

declare maskBytes.simps [simp del]

text \<open>
  \<open>networkNumberAndMask\<close> and \<open>(*IPNet).Contains\<close>. The address is taken in its
  4-byte form when it has one, and is compared with the network number under the mask,
  byte by byte; an address of the other family is not contained.
\<close>

definition networkNumberAndMask :: "IPNet \<Rightarrow> (IP \<times> byte list) option" where
  "networkNumberAndMask n =
     (case (case To4 (net_IP n) of
              Some ip4 \<Rightarrow> Some ip4
            | None \<Rightarrow> if length (net_IP n) \<noteq> 16 then None else Some (net_IP n)) of
        None \<Rightarrow> None
      | Some ip \<Rightarrow>
          (let m = net_Mask n
           in if length m = 4 then (if length ip \<noteq> 4 then None else Some (ip, m))
              else if length m = 16
              then (if length ip = 4 then Some (ip, drop 12 m) else Some (ip, m))
              else None))"

definition Contains :: "IPNet \<Rightarrow> IP \<Rightarrow> bool" where
  "Contains n ip =
     (case networkNumberAndMask n of
        None \<Rightarrow> (case To4 ip of Some x \<Rightarrow> length x | None \<Rightarrow> length ip) = 0
      | Some (nn, m) \<Rightarrow>
          (let ip' = (case To4 ip of Some x \<Rightarrow> x | None \<Rightarrow> ip)
           in length ip' = length nn
              \<and> list_all (\<lambda>i. (nn ! i) AND (m ! i) = (ip' ! i) AND (m ! i)) [0..<length ip']))"

text \<open>
  \<open>net.ParseCIDR\<close> on the literals of \<open>privateRanges\<close>: the network number and the mask
  the library returns for each of them. Each literal is a well-formed CIDR, so the
  \<open>err != nil\<close> branch of the loop is taken for none; any other string is \<open>None\<close> here.
\<close>

definition ParseCIDR :: "string \<Rightarrow> IPNet option" where
  "ParseCIDR s =
     map_of
       [(''10.0.0.0/8'', \<lparr>net_IP = [10, 0, 0, 0], net_Mask = maskBytes 8 4\<rparr>),
        (''172.16.0.0/12'', \<lparr>net_IP = [172, 16, 0, 0], net_Mask = maskBytes 12 4\<rparr>),
        (''192.168.0.0/16'', \<lparr>net_IP = [192, 168, 0, 0], net_Mask = maskBytes 16 4\<rparr>),
        (''169.254.0.0/16'', \<lparr>net_IP = [169, 254, 0, 0], net_Mask = maskBytes 16 4\<rparr>),
        (''fc00::/7'',
           \<lparr>net_IP = [0xfc, 0, 0, 0, 0, 0, 0, 0, 0, 0, 0, 0, 0, 0, 0, 0],
            net_Mask = maskBytes 7 16\<rparr>),
        (''fe80::/10'',
           \<lparr>net_IP = [0xfe, 0x80, 0, 0, 0, 0, 0, 0, 0, 0, 0, 0, 0, 0, 0, 0],
            net_Mask = maskBytes 10 16\<rparr>),
        (''::1/128'',
           \<lparr>net_IP = [0, 0, 0, 0, 0, 0, 0, 0, 0, 0, 0, 0, 0, 0, 0, 1],
            net_Mask = maskBytes 128 16\<rparr>),
        (''100.64.0.0/10'', \<lparr>net_IP = [100, 64, 0, 0], net_Mask = maskBytes 10 4\<rparr>)]
       s"

text \<open>
  \<open>(net.IP).String\<close>: dotted decimal for an address with a 4-byte form; for any other
  16-byte address the eight 16-bit groups in hexadecimal, the first longest run of two or
  more zero groups written \<open>::\<close>; \<open><nil>\<close> for the empty slice and \<open>?\<close> followed by the
  bytes in hexadecimal for any other length.
\<close>

definition hexByte :: "byte \<Rightarrow> string" where
  "hexByte b =
     [''0123456789abcdef'' ! (unat b div 16), ''0123456789abcdef'' ! (unat b mod 16)]"

fun joinWith :: "string \<Rightarrow> string list \<Rightarrow> string" where
  "joinWith sep [] = []"
| "joinWith sep [x] = x"
| "joinWith sep (x # y # ys) = x @ sep @ joinWith sep (y # ys)"

definition v6groups :: "IP \<Rightarrow> nat list" where
  "v6groups ip = map (\<lambda>i. unat (ip ! (2 * i)) * 256 + unat (ip ! (2 * i + 1))) [0..<8]"

definition zeroRun :: "nat list \<Rightarrow> nat \<times> nat" where
  "zeroRun gs =
     foldl (\<lambda>(zeroStart, zeroEnd) i.
              (let j = i + length (takeWhile (\<lambda>g. g = 0) (drop i gs)); l = j - i
               in if 2 \<le> l \<and> zeroEnd - zeroStart < l then (i, j) else (zeroStart, zeroEnd)))
           (255, 255) [0..<8]"

definition string16 :: "IP \<Rightarrow> string" where
  "string16 ip =
     (let gs = v6groups ip; (zeroStart, zeroEnd) = zeroRun gs
      in if zeroStart = 255 then joinWith '':'' (map appendHex gs)
         else joinWith '':'' (map appendHex (take zeroStart gs)) @ ''::''
              @ joinWith '':'' (map appendHex (drop zeroEnd gs)))"

definition IP_String :: "IP \<Rightarrow> string" where
  "IP_String ip =
     (if length ip = 0 then ''<nil>''
      else if length ip \<noteq> 4 \<and> length ip \<noteq> 16 then ''?'' @ concat (map hexByte ip)
      else (case To4 ip of
              Some p4 \<Rightarrow> joinWith ''.'' (map (\<lambda>b. uitoa (unat b)) p4)
            | None \<Rightarrow> string16 ip))"

section \<open>The URL safety validator (internal/validator/ssrf.go)\<close>

text \<open>
  \<open>url.Parse\<close> and \<open>net.LookupIP\<close> belong to the standard library and to the resolver
  of the machine; they are the environment of the validator. A parsed URL is reduced to
  the two fields the validator reads. \<open>(*URL).Hostname\<close> is the library's: the host
  without a valid port and without the square brackets of an IPv6 literal.
\<close>

record URL =
  Scheme :: string
  Host :: string

record env =
  url_Parse :: "string \<Rightarrow> string + URL"
  net_LookupIP :: "string \<Rightarrow> string + IP list"

definition validOptionalPort :: "string \<Rightarrow> bool" where
  "validOptionalPort port =
     (case port of
        [] \<Rightarrow> True
      | c # rest \<Rightarrow>
          if c \<noteq> CHR '':'' then False
          else list_all (\<lambda>b. b \<in> set ''0123456789'') rest)"

definition splitHostPort :: "string \<Rightarrow> string \<times> string" where
  "splitHostPort hostPort =
     (let colon = LastIndexByte hostPort CHR '':'';
          (host, port) =
             (if colon \<noteq> -1 \<and> validOptionalPort (drop (nat colon) hostPort)
              then (take (nat colon) hostPort, drop (nat colon + 1) hostPort)
              else (hostPort, ''''))
      in if HasPrefix host ''['' \<and> host \<noteq> [] \<and> last host = CHR '']''
         then (butlast (tl host), port)
         else (host, port))"

definition Hostname :: "URL \<Rightarrow> string" where
  "Hostname u = fst (splitHostPort (Host u))"

text \<open>
  The errors of \<open>ValidateExecutionURL\<close>, one constructor for each \<open>fmt.Errorf\<close> of the
  function with the value it formats, and the message each one carries. Go's \<open>nil\<close>
  error (the URL is allowed) is \<open>None\<close>.
\<close>

datatype verr =
    InvalidURL string
  | UnsupportedScheme string
  | MissingHostname
  | LocalhostNotAllowed
  | ResolveFailed string
  | PrivateIPNotAllowed string

fun Error :: "verr \<Rightarrow> string" where
  "Error (InvalidURL e) = ''invalid URL: '' @ e"
| "Error (UnsupportedScheme s) = ''unsupported URL scheme: '' @ s"
| "Error MissingHostname = ''URL must contain a hostname''"
| "Error LocalhostNotAllowed = ''requests to localhost are not allowed''"
| "Error (ResolveFailed e) = ''failed to resolve hostname: '' @ e"
| "Error (PrivateIPNotAllowed ip) = ''requests to private IP ranges are not allowed: '' @ ip"

definition isLocalhost :: "string \<Rightarrow> bool" where
  "isLocalhost hostname0 =
     (let hostname = ToLower hostname0
      in hostname = ''localhost'' \<or>
         hostname = ''127.0.0.1'' \<or>
         hostname = ''::1'' \<or>
         HasPrefix hostname ''127.'' \<or>
         hostname = ''0.0.0.0'' \<or>
         hostname = ''[::]'')"

definition privateRanges :: "string list" where
  "privateRanges =
     [''10.0.0.0/8'', ''172.16.0.0/12'', ''192.168.0.0/16'', ''169.254.0.0/16'',
      ''fc00::/7'', ''fe80::/10'', ''::1/128'', ''169.254.0.0/16'', ''100.64.0.0/10'']"

definition metadataIPs :: "string list" where
  "metadataIPs = [''169.254.169.254'', ''fd00:ec2::254'']"

fun inRanges :: "string list \<Rightarrow> IP \<Rightarrow> bool" where
  "inRanges [] ip = False"
| "inRanges (cidr # rest) ip =
     (case ParseCIDR cidr of
        None \<Rightarrow> inRanges rest ip
      | Some network \<Rightarrow> if Contains network ip then True else inRanges rest ip)"

definition isPrivateIP :: "IP \<Rightarrow> bool" where
  "isPrivateIP ip =
     (if IsLoopback ip then True
      else if IsLinkLocalUnicast ip \<or> IsLinkLocalMulticast ip then True
      else if inRanges privateRanges ip then True
      else if list_ex (\<lambda>metaIP. IP_String ip = metaIP) metadataIPs then True
      else False)"

text \<open>
  What a call does besides returning is recorded as a list of events, in the order of
  their occurrence: a DNS lookup of a host name; a verdict of the validator on a URL
  under the two policy flags; the first request of a call leaving for its URL (with its
  method and body); a redirect being followed to its target.
\<close>

datatype event =
    EvLookup string
  | EvValidate string bool bool "verr option"
  | EvRequest string string "string option"
  | EvFollow string

fun checkIPs :: "IP list \<Rightarrow> bool \<Rightarrow> verr option" where
  "checkIPs [] allowPrivateIPs = None"
| "checkIPs (ip # ips) allowPrivateIPs =
     (if isPrivateIP ip \<and> \<not> allowPrivateIPs
      then Some (PrivateIPNotAllowed (IP_String ip))
      else checkIPs ips allowPrivateIPs)"

definition ValidateExecutionURL ::
  "env \<Rightarrow> string \<Rightarrow> bool \<Rightarrow> bool \<Rightarrow> event list \<times> verr option" where
  "ValidateExecutionURL e urlStr allowLocalhost allowPrivateIPs =
     (case url_Parse e urlStr of
        Inl err \<Rightarrow> ([], Some (InvalidURL err))
      | Inr parsed \<Rightarrow>
          (let scheme = ToLower (Scheme parsed)
           in if scheme \<noteq> ''http'' \<and> scheme \<noteq> ''https''
              then ([], Some (UnsupportedScheme (Scheme parsed)))
              else (let hostname = Hostname parsed
                    in if hostname = '''' then ([], Some MissingHostname)
                       else if isLocalhost hostname \<and> \<not> allowLocalhost
                       then ([], Some LocalhostNotAllowed)
                       else (case net_LookupIP e hostname of
                               Inl err \<Rightarrow> ([EvLookup hostname], Some (ResolveFailed err))
                             | Inr ips \<Rightarrow>
                                 ([EvLookup hostname], checkIPs ips allowPrivateIPs)))))"

section \<open>The HTTP client of the standard library, as both engines use it\<close>

text \<open>
  The network is the environment of an engine. A round trip of one request either fails
  in the transport (connect error, timeout), or yields a response that ends the call, or
  yields a response that \<open>http.Client\<close> treats as a redirect, together with the URL of
  the next request as the client resolves it from the \<open>Location\<close> header. The answer
  may depend on how many requests the call has already made, and so may the resolver's
  answer to the validator. \<open>w_elapsed\<close> is the wall-clock time of the call in
  milliseconds, as the clock reports it.
\<close>

record Response =
  resp_StatusCode :: int
  resp_Status :: string
  resp_Header :: "string \<Rightarrow> string list option"
  resp_Body :: string
  resp_BodyErr :: "string option"

datatype hop =
    TransportError string
  | Final Response
  | Redirect Response string

record world =
  w_Parse :: "string \<Rightarrow> string + URL"
  w_LookupIP :: "nat \<Rightarrow> string \<Rightarrow> string + IP list"
  w_roundTrip :: "nat \<Rightarrow> string \<Rightarrow> hop"
  w_elapsed :: int

definition env_at :: "world \<Rightarrow> nat \<Rightarrow> env" where
  "env_at w k = \<lparr>url_Parse = w_Parse w, net_LookupIP = w_LookupIP w k\<rparr>"

text \<open>
  \<open>http.NewRequest\<close>: the empty method means GET, a method must be a token of RFC 7230,
  and the URL must parse.
\<close>

record Request =
  req_Method :: string
  req_URL :: string
  req_Body :: "string option"

datatype newreq_err =
    InvalidMethod string
  | ParseFailed string

definition isTokenByte :: "char \<Rightarrow> bool" where
  "isTokenByte c =
     (c \<in> set ''!#$%&*+-.^_|~0123456789abcdefghijklmnopqrstuvwxyzABCDEFGHIJKLMNOPQRSTUVWXYZ''
      \<or> c = CHR 0x27 \<or> c = CHR 0x60)"

definition validMethod :: "string \<Rightarrow> bool" where
  "validMethod method = (method \<noteq> [] \<and> list_all isTokenByte method)"

definition NewRequest ::
  "world \<Rightarrow> string \<Rightarrow> string \<Rightarrow> string option \<Rightarrow> newreq_err + Request" where
  "NewRequest w method0 url body =
     (let method = (if method0 = '''' then ''GET'' else method0)
      in if \<not> validMethod method then Inl (InvalidMethod method)
         else (case w_Parse w url of
                 Inl err \<Rightarrow> Inl (ParseFailed err)
               | Inr u \<Rightarrow> Inr \<lparr>req_Method = method, req_URL = url, req_Body = body\<rparr>))"

text \<open>
  \<open>io.ReadAll(io.LimitReader(resp.Body, limit))\<close>: at most \<open>limit\<close> bytes of the body;
  an error of the stream is seen only when it ends the stream before the limit.
\<close>

definition readLimited :: "int \<Rightarrow> Response \<Rightarrow> string + string" where
  "readLimited limit resp =
     (let n = (if limit \<le> 0 then 0 else nat limit)
      in case resp_BodyErr resp of
           None \<Rightarrow> Inr (take n (resp_Body resp))
         | Some err \<Rightarrow>
             if length (resp_Body resp) < n then Inl err
             else Inr (take n (resp_Body resp)))"

datatype cr_err =
    StoppedAfter int
  | RedirectBlocked verr

fun cr_Error :: "cr_err \<Rightarrow> string" where
  "cr_Error (StoppedAfter n) = ''stopped after '' @ itoa n @ '' redirects''"
| "cr_Error (RedirectBlocked err) = ''redirect blocked: '' @ Error err"

datatype do_err =
    TransportFailed string
  | CheckRedirectFailed cr_err

datatype exec_err =
    CreateRequestFailed newreq_err
  | RequestFailed do_err
  | ReadFailed string

section \<open>The execution engine of the public service (\<open>executeHTTPRequest\<close>)\<close>

record Config =
  MaxRedirects :: int
  MaxResponseSize :: int
  AllowLocalhost :: bool
  AllowPrivateIPs :: bool

record ExecutionResponse =
  er_Status :: int
  er_Headers :: "string \<Rightarrow> string option"
  er_Body :: string
  er_DurationMs :: int

text \<open>
  The \<open>CheckRedirect\<close> closure of the client: \<open>target\<close> is the URL of the upcoming
  request, \<open>nvia\<close> is \<open>len(via)\<close>, the number of requests already made.
\<close>

definition CheckRedirect ::
  "Config \<Rightarrow> env \<Rightarrow> string \<Rightarrow> nat \<Rightarrow> event list \<times> cr_err option" where
  "CheckRedirect cfg e target nvia =
     (if MaxRedirects cfg \<le> int nvia then ([], Some (StoppedAfter (MaxRedirects cfg)))
      else (case ValidateExecutionURL e target (AllowLocalhost cfg) (AllowPrivateIPs cfg) of
              (evs, r) \<Rightarrow>
                (evs @ [EvValidate target (AllowLocalhost cfg) (AllowPrivateIPs cfg) r],
                 case r of Some err \<Rightarrow> Some (RedirectBlocked err) | None \<Rightarrow> None)))"

text \<open>
  The loop of \<open>client.Do\<close> from the moment the request for \<open>url\<close> is sent, \<open>nvia\<close>
  requests having been made before it. The events are those after that request left.
\<close>

function do_hops ::
  "Config \<Rightarrow> world \<Rightarrow> string \<Rightarrow> nat \<Rightarrow> event list \<times> (do_err + Response)" where
  "do_hops cfg w url nvia =
     (case w_roundTrip w nvia url of
        TransportError err \<Rightarrow> ([], Inl (TransportFailed err))
      | Final resp \<Rightarrow> ([], Inr resp)
      | Redirect resp target \<Rightarrow>
          (case CheckRedirect cfg (env_at w (Suc nvia)) target (Suc nvia) of
             (evs, Some err) \<Rightarrow> (evs, Inl (CheckRedirectFailed err))
           | (evs, None) \<Rightarrow>
               (case do_hops cfg w target (Suc nvia) of
                  (evs', r) \<Rightarrow> (evs @ [EvFollow target] @ evs', r))))"
  by pat_completeness auto
termination
proof (relation "measure (\<lambda>(cfg, w, url, nvia). nat (MaxRedirects cfg) - nvia)")
qed (auto simp: CheckRedirect_def split: if_splits)

declare do_hops.simps [simp del]

definition prepareBody :: "string \<Rightarrow> string \<Rightarrow> string option" where
  "prepareBody method bodyStr =
     (let methodUpper = ToUpper method;
          supportsBody = (methodUpper = ''POST'' \<or> methodUpper = ''PUT''
                          \<or> methodUpper = ''PATCH'' \<or> methodUpper = ''DELETE'')
      in if bodyStr \<noteq> '''' \<and> supportsBody then Some bodyStr else None)"

definition firstValues :: "(string \<Rightarrow> string list option) \<Rightarrow> string \<Rightarrow> string option" where
  "firstValues header key =
     (case header key of
        None \<Rightarrow> None
      | Some values \<Rightarrow> (case values of [] \<Rightarrow> None | v # vs \<Rightarrow> Some v))"

definition executeHTTPRequest ::
  "Config \<Rightarrow> world \<Rightarrow> string \<Rightarrow> string \<Rightarrow> (string \<Rightarrow> string option) \<Rightarrow> string
   \<Rightarrow> event list \<times> (exec_err + ExecutionResponse)" where
  "executeHTTPRequest cfg w method urlStr headers bodyStr =
     (let bodyReader = prepareBody method bodyStr
      in case NewRequest w method urlStr bodyReader of
           Inl err \<Rightarrow> ([], Inl (CreateRequestFailed err))
         | Inr req \<Rightarrow>
             (case do_hops cfg w urlStr 0 of
                (evs, r) \<Rightarrow>
                  (EvRequest (req_Method req) (req_URL req) (req_Body req) # evs,
                   case r of
                     Inl err \<Rightarrow> Inl (RequestFailed err)
                   | Inr resp \<Rightarrow>
                       (case readLimited (MaxResponseSize cfg) resp of
                          Inl err \<Rightarrow> Inl (ReadFailed err)
                        | Inr responseBody \<Rightarrow>
                            Inr \<lparr>er_Status = resp_StatusCode resp,
                                 er_Headers = firstValues (resp_Header resp),
                                 er_Body = responseBody,
                                 er_DurationMs = 0\<rparr>))))"

section \<open>The execute handler of the public service (\<open>ExecuteRequest\<close>)\<close>

text \<open>
  The handler receives the \<open>:id\<close> parameter, the row the database returns for it and
  the body of the call. A column of type \<open>sql.NullString\<close> is an option (\<open>None\<close> is
  NULL). The JSON body arrives decoded (\<open>ShouldBindJSON\<close> into a map), or fails to
  decode; an object is the list of its members, each key once. \<open>c_storedHeaders\<close> is
  what \<open>json.Unmarshal\<close> makes of the row's headers column (\<open>None\<close> when it fails).
\<close>

record CollectionItem =
  item_ItemType :: string
  item_Method :: "string option"
  item_URL :: "string option"
  item_Headers :: "string option"
  item_Body :: "string option"

datatype fetched =
    ErrNoRows
  | QueryFailed
  | Row CollectionItem

datatype json =
    JString string
  | JObject "(string \<times> json) list"
  | JOther

datatype content =
    NoContent
  | BadJSON string
  | Object "(string \<times> json) list"

record call =
  c_idValid :: bool
  c_row :: fetched
  c_content :: content
  c_storedHeaders :: "(string \<times> string) list option"

record ExecutionRequest =
  x_URL :: "string option"
  x_Headers :: "(string \<Rightarrow> string option) option"
  x_Body :: "string option"

fun stringEntries :: "(string \<times> json) list \<Rightarrow> (string \<times> string) list" where
  "stringEntries [] = []"
| "stringEntries ((k, JString v) # rest) = (k, v) # stringEntries rest"
| "stringEntries ((k, JObject v) # rest) = stringEntries rest"
| "stringEntries ((k, JOther) # rest) = stringEntries rest"

definition overrides :: "(string \<times> json) list \<Rightarrow> ExecutionRequest" where
  "overrides rawBody =
     \<lparr>x_URL = (case map_of rawBody ''url'' of Some (JString urlVal) \<Rightarrow> Some urlVal | _ \<Rightarrow> None),
      x_Headers =
        (case map_of rawBody ''headers'' of
           Some (JObject headersVal) \<Rightarrow>
             (let headers = stringEntries headersVal
              in if 0 < length headers then Some (map_of headers) else None)
         | _ \<Rightarrow> None),
      x_Body = (case map_of rawBody ''body'' of Some (JString bodyVal) \<Rightarrow> Some bodyVal | _ \<Rightarrow> None)\<rparr>"

datatype detail =
    Message string
  | InvalidBody string
  | Blocked verr
  | Failed exec_err

datatype reply =
    ErrorReply int string detail
  | Executed ExecutionResponse

text \<open>
  The handler, in the order of the source. Its steps after the row is known to be a
  request are written as functions of their own: the decoding of the overrides, the
  choice of URL, headers and body (an override replaces the stored value), and the
  validation followed by the execution.
\<close>

definition bindOverrides :: "content \<Rightarrow> string + ExecutionRequest" where
  "bindOverrides body =
     (case body of
        NoContent \<Rightarrow> Inr \<lparr>x_URL = None, x_Headers = None, x_Body = None\<rparr>
      | BadJSON err \<Rightarrow> Inl err
      | Object rawBody \<Rightarrow> Inr (overrides rawBody))"

definition chooseURL :: "ExecutionRequest \<Rightarrow> CollectionItem \<Rightarrow> string" where
  "chooseURL execReq item =
     (case x_URL execReq of
        Some u \<Rightarrow> u
      | None \<Rightarrow> (case item_URL item of Some u \<Rightarrow> u | None \<Rightarrow> ''''))"

definition chooseHeaders ::
  "ExecutionRequest \<Rightarrow> CollectionItem \<Rightarrow> (string \<times> string) list option
   \<Rightarrow> string \<Rightarrow> string option" where
  "chooseHeaders execReq item stored =
     (case x_Headers execReq of
        Some h \<Rightarrow> h
      | None \<Rightarrow>
          (case item_Headers item of
             None \<Rightarrow> Map.empty
           | Some hs \<Rightarrow>
               if hs = '''' then Map.empty
               else (case stored of
                       None \<Rightarrow> Map.empty
                     | Some postmanHeaders \<Rightarrow> map_of (rev postmanHeaders))))"

definition chooseBody :: "ExecutionRequest \<Rightarrow> CollectionItem \<Rightarrow> string" where
  "chooseBody execReq item =
     (case x_Body execReq of
        Some b \<Rightarrow> b
      | None \<Rightarrow> (case item_Body item of Some b \<Rightarrow> b | None \<Rightarrow> ''''))"

definition validateAndExecute ::
  "Config \<Rightarrow> world \<Rightarrow> string \<Rightarrow> string \<Rightarrow> (string \<Rightarrow> string option) \<Rightarrow> string
   \<Rightarrow> event list \<times> reply" where
  "validateAndExecute cfg w method urlStr headers body =
     (case ValidateExecutionURL (env_at w 0) urlStr (AllowLocalhost cfg) (AllowPrivateIPs cfg) of
        (evs, Some err) \<Rightarrow>
          (evs @ [EvValidate urlStr (AllowLocalhost cfg) (AllowPrivateIPs cfg) (Some err)],
           ErrorReply 403 ''ssrf_protection'' (Blocked err))
      | (evs, None) \<Rightarrow>
          (case executeHTTPRequest cfg w method urlStr headers body of
             (evs', r) \<Rightarrow>
               (evs @ [EvValidate urlStr (AllowLocalhost cfg) (AllowPrivateIPs cfg) None] @ evs',
                case r of
                  Inl err \<Rightarrow> ErrorReply 502 ''execution_error'' (Failed err)
                | Inr response \<Rightarrow> Executed (response\<lparr>er_DurationMs := w_elapsed w\<rparr>))))"

definition ExecuteRequest :: "Config \<Rightarrow> world \<Rightarrow> call \<Rightarrow> event list \<times> reply" where
  "ExecuteRequest cfg w c =
     (if \<not> c_idValid c
      then ([], ErrorReply 400 ''invalid_id'' (Message ''Item ID must be a valid integer''))
      else case c_row c of
        ErrNoRows \<Rightarrow> ([], ErrorReply 404 ''not_found'' (Message ''Item not found''))
      | QueryFailed \<Rightarrow> ([], ErrorReply 500 ''database_error'' (Message ''Failed to fetch item''))
      | Row item \<Rightarrow>
          if item_ItemType item \<noteq> ''request''
          then ([], ErrorReply 400 ''invalid_item_type''
                      (Message ''Only items of type 'request' can be executed''))
          else case bindOverrides (c_content c) of
            Inl err \<Rightarrow> ([], ErrorReply 400 ''invalid_request'' (InvalidBody err))
          | Inr execReq \<Rightarrow>
              (case item_Method item of
                 None \<Rightarrow> ([], ErrorReply 400 ''invalid_request''
                                 (Message ''Request is missing method''))
               | Some method \<Rightarrow>
                   (let urlStr = chooseURL execReq item
                    in if urlStr = ''''
                       then ([], ErrorReply 400 ''invalid_request''
                                   (Message ''Request URL is missing. Provide URL in request body or ensure item has a URL.''))
                       else validateAndExecute cfg w method urlStr
                              (chooseHeaders execReq item (c_storedHeaders c))
                              (chooseBody execReq item))))"

section \<open>The store's checks on the method of a request item\<close>

text \<open>
  The checks of \<open>CreateItem\<close> and \<open>UpdateItem\<close> on the item type and the method (the
  kind of error they answer with, \<open>None\<close> when they pass), and the \<open>CHECK\<close> constraint
  of the \<open>collection_items\<close> table on its \<open>method\<close> column.
\<close>

definition allowedMethods :: "string \<Rightarrow> bool" where
  "allowedMethods m = (m \<in> set [''GET'', ''POST'', ''PUT'', ''PATCH'', ''DELETE''])"

definition CreateItem_check :: "string \<Rightarrow> string \<Rightarrow> string option" where
  "CreateItem_check itemType method =
     (if itemType \<noteq> ''folder'' \<and> itemType \<noteq> ''request'' then Some ''invalid_item_type''
      else if itemType = ''request''
      then (if method = '''' then Some ''missing_method''
            else if \<not> allowedMethods method then Some ''invalid_method''
            else None)
      else None)"

definition UpdateItem_check :: "string option \<Rightarrow> string option" where
  "UpdateItem_check method =
     (case method of
        None \<Rightarrow> None
      | Some m \<Rightarrow> if \<not> allowedMethods m then Some ''invalid_method'' else None)"

definition method_CHECK :: "string option \<Rightarrow> bool" where
  "method_CHECK method = (case method of None \<Rightarrow> True | Some m \<Rightarrow> allowedMethods m)"

section \<open>The local agent (agent/executor.go)\<close>

record AgentRequest =
  a_Method :: string
  a_URL :: string
  a_Headers :: "string \<Rightarrow> string option"
  a_Body :: string

record ExecuteResponse =
  ar_Status :: int
  ar_StatusText :: string
  ar_Headers :: "string \<Rightarrow> string list option"
  ar_Body :: string
  ar_Duration :: int

definition agent_MaxResponseSize :: int where
  "agent_MaxResponseSize = 50 * 1024 * 1024"

definition agent_MaxRedirects :: int where
  "agent_MaxRedirects = 5"

definition agent_CheckRedirect :: "nat \<Rightarrow> cr_err option" where
  "agent_CheckRedirect nvia =
     (if agent_MaxRedirects \<le> int nvia then Some (StoppedAfter agent_MaxRedirects) else None)"

function agent_do_hops :: "world \<Rightarrow> string \<Rightarrow> nat \<Rightarrow> event list \<times> (do_err + Response)" where
  "agent_do_hops w url nvia =
     (case w_roundTrip w nvia url of
        TransportError err \<Rightarrow> ([], Inl (TransportFailed err))
      | Final resp \<Rightarrow> ([], Inr resp)
      | Redirect resp target \<Rightarrow>
          (case agent_CheckRedirect (Suc nvia) of
             Some err \<Rightarrow> ([], Inl (CheckRedirectFailed err))
           | None \<Rightarrow>
               (case agent_do_hops w target (Suc nvia) of
                  (evs', r) \<Rightarrow> (EvFollow target # evs', r))))"
  by pat_completeness auto
termination
proof (relation "measure (\<lambda>(w, url, nvia). nat agent_MaxRedirects - nvia)")
qed (auto simp: agent_CheckRedirect_def split: if_splits)

declare agent_do_hops.simps [simp del]

definition agent_executeHTTPRequest ::
  "world \<Rightarrow> AgentRequest \<Rightarrow> event list \<times> (exec_err + ExecuteResponse)" where
  "agent_executeHTTPRequest w execReq =
     (let bodyReader = prepareBody (a_Method execReq) (a_Body execReq)
      in case NewRequest w (a_Method execReq) (a_URL execReq) bodyReader of
           Inl err \<Rightarrow> ([], Inl (CreateRequestFailed err))
         | Inr req \<Rightarrow>
             (case agent_do_hops w (a_URL execReq) 0 of
                (evs, r) \<Rightarrow>
                  (EvRequest (req_Method req) (req_URL req) (req_Body req) # evs,
                   case r of
                     Inl err \<Rightarrow> Inl (RequestFailed err)
                   | Inr resp \<Rightarrow>
                       (case readLimited agent_MaxResponseSize resp of
                          Inl err \<Rightarrow> Inl (ReadFailed err)
                        | Inr responseBody \<Rightarrow>
                            Inr \<lparr>ar_Status = resp_StatusCode resp,
                                 ar_StatusText = resp_Status resp,
                                 ar_Headers = resp_Header resp,
                                 ar_Body = responseBody,
                                 ar_Duration = w_elapsed w\<rparr>))))"

text \<open>
  \<open>executeHandler\<close>: the body is bound to the request structure (\<open>Inl\<close> when it is not
  JSON of that shape); \<open>method\<close> and \<open>url\<close> are \<open>binding:"required"\<close>, which refuses the
  empty string. An engine error is answered with status 200 and the error text.
\<close>

datatype agent_reply =
    AgentBadRequest
  | AgentFailed exec_err
  | AgentExecuted ExecuteResponse

definition executeHandler :: "world \<Rightarrow> string + AgentRequest \<Rightarrow> event list \<times> agent_reply" where
  "executeHandler w body =
     (case body of
        Inl err \<Rightarrow> ([], AgentBadRequest)
      | Inr req \<Rightarrow>
          if a_Method req = '''' \<or> a_URL req = '''' then ([], AgentBadRequest)
          else (case agent_executeHTTPRequest w req of
                  (evs, Inl err) \<Rightarrow> (evs, AgentFailed err)
                | (evs, Inr response) \<Rightarrow> (evs, AgentExecuted response)))"

section \<open>The vocabulary of the specification\<close>

text \<open>
  An address range in CIDR notation, read as arithmetic: an address belongs to
  \<open>base/n\<close> when it is of the family of \<open>base\<close> and agrees with it on the \<open>n\<close>
  leading bits, that is, when the two numbers have the same quotient by
  \<open>2 ^ (bits - n)\<close>. The address a \<open>net.IP\<close> value stands for is its 4-byte form
  when it has one. \<open>listed_ranges\<close> are the ranges the specification names.
\<close>

primrec ip_num :: "byte list \<Rightarrow> nat" where
  "ip_num [] = 0"
| "ip_num (b # bs) = unat b * 256 ^ length bs + ip_num bs"

definition address :: "IP \<Rightarrow> byte list" where
  "address ip = (case To4 ip of Some x \<Rightarrow> x | None \<Rightarrow> ip)"

definition cidr_member :: "byte list \<Rightarrow> nat \<Rightarrow> IP \<Rightarrow> bool" where
  "cidr_member base n ip =
     (length (address ip) = length base \<and>
      ip_num (address ip) div 2 ^ (8 * length base - n) = ip_num base div 2 ^ (8 * length base - n))"

definition listed_ranges :: "(byte list \<times> nat) list" where
  "listed_ranges =
     [([127, 0, 0, 0], 8),
      ([10, 0, 0, 0], 8),
      ([172, 16, 0, 0], 12),
      ([192, 168, 0, 0], 16),
      ([169, 254, 0, 0], 16),
      ([0, 0, 0, 0, 0, 0, 0, 0, 0, 0, 0, 0, 0, 0, 0, 1], 128),
      ([0xfc, 0, 0, 0, 0, 0, 0, 0, 0, 0, 0, 0, 0, 0, 0, 0], 7),
      ([0xfe, 0x80, 0, 0, 0, 0, 0, 0, 0, 0, 0, 0, 0, 0, 0, 0], 10)]"

definition in_listed_ranges :: "IP \<Rightarrow> bool" where
  "in_listed_ranges ip = list_ex (\<lambda>(base, n). cidr_member base n ip) listed_ranges"

text \<open>The localhost aliases, as the specification lists them.\<close>

definition localhost_alias :: "string \<Rightarrow> bool" where
  "localhost_alias h =
     (h = ''localhost'' \<or> h = ''127.0.0.1'' \<or> h = ''::1'' \<or> prefix ''127.'' h
      \<or> h = ''0.0.0.0'' \<or> h = ''[::]'')"

text \<open>
  An example environment: what \<open>url.Parse\<close> makes of a few URLs (their scheme and
  host), and what a resolver may answer for their hosts. An IP literal resolves to
  itself; the library returns it in the 16-byte form.
\<close>

definition example_Parse :: "string \<Rightarrow> string + URL" where
  "example_Parse s =
     (case map_of
        [(''http://169.254.169.254/latest/meta-data'',
            \<lparr>Scheme = ''http'', Host = ''169.254.169.254''\<rparr>),
         (''file://x'', \<lparr>Scheme = ''file'', Host = ''x''\<rparr>),
         (''ftp://x'', \<lparr>Scheme = ''ftp'', Host = ''x''\<rparr>),
         (''ws://x'', \<lparr>Scheme = ''ws'', Host = ''x''\<rparr>),
         (''http://localhost/'', \<lparr>Scheme = ''http'', Host = ''localhost''\<rparr>),
         (''https://127.0.0.1:8443/'', \<lparr>Scheme = ''https'', Host = ''127.0.0.1:8443''\<rparr>),
         (''http://10.0.0.5:8080/admin'', \<lparr>Scheme = ''http'', Host = ''10.0.0.5:8080''\<rparr>),
         (''http://intranet.example/'', \<lparr>Scheme = ''http'', Host = ''intranet.example''\<rparr>),
         (''http://example.com/'', \<lparr>Scheme = ''http'', Host = ''example.com''\<rparr>),
         (''http://[::]/'', \<lparr>Scheme = ''http'', Host = ''[::]''\<rparr>),
         (''http://[::]:8080/'', \<lparr>Scheme = ''http'', Host = ''[::]:8080''\<rparr>)] s of
        Some u \<Rightarrow> Inr u
      | None \<Rightarrow> Inl ''parse error'')"

definition example_LookupIP :: "string \<Rightarrow> string + IP list" where
  "example_LookupIP host =
     (case map_of
        [(''169.254.169.254'',
            [[0, 0, 0, 0, 0, 0, 0, 0, 0, 0, 0xff, 0xff, 169, 254, 169, 254]]),
         (''localhost'', [[127, 0, 0, 1], [0, 0, 0, 0, 0, 0, 0, 0, 0, 0, 0, 0, 0, 0, 0, 1]]),
         (''127.0.0.1'', [[0, 0, 0, 0, 0, 0, 0, 0, 0, 0, 0xff, 0xff, 127, 0, 0, 1]]),
         (''10.0.0.5'', [[0, 0, 0, 0, 0, 0, 0, 0, 0, 0, 0xff, 0xff, 10, 0, 0, 5]]),
         (''intranet.example'',
            [[172, 20, 1, 1], [0xfd, 0, 0, 0, 0, 0, 0, 0, 0, 0, 0, 0, 0, 0, 0, 7]]),
         (''example.com'', [[93, 184, 216, 34]]),
         (''::'', [[0, 0, 0, 0, 0, 0, 0, 0, 0, 0, 0, 0, 0, 0, 0, 0]])] host of
        Some ips \<Rightarrow> Inr ips
      | None \<Rightarrow> Inl ''no such host'')"

definition example_env :: env where
  "example_env = \<lparr>url_Parse = example_Parse, net_LookupIP = example_LookupIP\<rparr>"

text \<open>
  Reading a trace. A request leaves the machine at an \<open>EvRequest\<close> (the first request
  of a call) or an \<open>EvFollow\<close> (a redirect followed). A trace is \<open>guarded\<close> under the
  flags when each of these events comes right after the validator's verdict that the
  same URL is allowed under the same flags.
\<close>

fun is_lookup :: "event \<Rightarrow> bool" where
  "is_lookup (EvLookup h) = True"
| "is_lookup (EvValidate u al ap v) = False"
| "is_lookup (EvRequest m u b) = False"
| "is_lookup (EvFollow u) = False"



fun sent :: "event list \<Rightarrow> string list" where
  "sent [] = []"
| "sent (EvRequest m u b # es) = u # sent es"
| "sent (EvFollow u # es) = u # sent es"
| "sent (EvLookup h # es) = sent es"
| "sent (EvValidate u al ap v # es) = sent es"

fun followed :: "event list \<Rightarrow> string list" where
  "followed [] = []"
| "followed (EvFollow u # es) = u # followed es"
| "followed (EvRequest m u b # es) = followed es"
| "followed (EvLookup h # es) = followed es"
| "followed (EvValidate u al ap v # es) = followed es"

fun validated :: "event list \<Rightarrow> string list" where
  "validated [] = []"
| "validated (EvValidate u al ap v # es) = u # validated es"
| "validated (EvRequest m u b # es) = validated es"
| "validated (EvFollow u # es) = validated es"
| "validated (EvLookup h # es) = validated es"

fun requests :: "event list \<Rightarrow> (string \<times> string \<times> string option) list" where
  "requests [] = []"
| "requests (EvRequest m u b # es) = (m, u, b) # requests es"
| "requests (EvFollow u # es) = requests es"
| "requests (EvLookup h # es) = requests es"
| "requests (EvValidate u al ap v # es) = requests es"

text \<open>
  An example network. Every URL under \<open>http://example.com/\<close> parses with that host,
  which resolves to a public address. \<open>/r0\<close> redirects to \<open>/r1\<close>, and so on up to
  \<open>/r6\<close>: six redirects in a row. \<open>/in0\<close> redirects to \<open>/in1\<close>, which redirects to
  \<open>http://localhost/\<close>. Any other URL is answered 201 with two \<open>Set-Cookie\<close> values.
\<close>

definition created :: Response where
  "created =
     \<lparr>resp_StatusCode = 201, resp_Status = ''201 Created'',
      resp_Header = [''X-Test'' \<mapsto> [''ok''], ''Set-Cookie'' \<mapsto> [''a=1'', ''b=2'']],
      resp_Body = ''id=1'', resp_BodyErr = None\<rparr>"

definition found :: Response where
  "found =
     \<lparr>resp_StatusCode = 302, resp_Status = ''302 Found'', resp_Header = Map.empty,
      resp_Body = '''', resp_BodyErr = None\<rparr>"

definition example_roundTrip :: "nat \<Rightarrow> string \<Rightarrow> hop" where
  "example_roundTrip k url =
     (case map_of
        [(''http://example.com/r0'', ''http://example.com/r1''),
         (''http://example.com/r1'', ''http://example.com/r2''),
         (''http://example.com/r2'', ''http://example.com/r3''),
         (''http://example.com/r3'', ''http://example.com/r4''),
         (''http://example.com/r4'', ''http://example.com/r5''),
         (''http://example.com/r5'', ''http://example.com/r6''),
         (''http://example.com/in0'', ''http://example.com/in1''),
         (''http://example.com/in1'', ''http://localhost/'')] url of
        Some target \<Rightarrow> Redirect found target
      | None \<Rightarrow> Final created)"

definition example_world :: world where
  "example_world =
     \<lparr>w_Parse = (\<lambda>s. if prefix ''http://example.com/'' s
                      then Inr \<lparr>Scheme = ''http'', Host = ''example.com''\<rparr>
                      else example_Parse s),
      w_LookupIP = (\<lambda>k. example_LookupIP),
      w_roundTrip = example_roundTrip,
      w_elapsed = 12\<rparr>"

definition example_cfg :: Config where
  "example_cfg =
     \<lparr>MaxRedirects = 5, MaxResponseSize = 52428800,
      AllowLocalhost = False, AllowPrivateIPs = False\<rparr>"

definition example_item :: CollectionItem where
  "example_item =
     \<lparr>item_ItemType = ''request'', item_Method = Some ''POST'',
      item_URL = Some ''http://example.com/items'', item_Headers = None,
      item_Body = Some ''name=a''\<rparr>"

definition example_call :: "string option \<Rightarrow> call" where
  "example_call url =
     \<lparr>c_idValid = True, c_row = Row example_item,
      c_content = (case url of None \<Rightarrow> NoContent | Some u \<Rightarrow> Object [(''url'', JString u)]),
      c_storedHeaders = None\<rparr>"

text \<open>The error of a result, and a header of the reply of the public service.\<close>

definition error_of :: "'e + 'a \<Rightarrow> 'e option" where
  "error_of r = (case r of Inl e \<Rightarrow> Some e | Inr x \<Rightarrow> None)"

definition reply_header :: "reply \<Rightarrow> string \<Rightarrow> string option" where
  "reply_header r key =
     (case r of ErrorReply code kind d \<Rightarrow> None | Executed response \<Rightarrow> er_Headers response key)"

section \<open>Lemmas on addresses and ranges\<close>

lemma byte_bound: "unat (b::byte) < 256"
  using unsigned_less[of b, where 'a=nat] by simp

lemma byte_of_unat: "unat (b::byte) = n \<Longrightarrow> b = of_nat n"
  by auto

lemma digit_bound: "q < 256 \<Longrightarrow> r < m \<Longrightarrow> q * m + r < 256 * (m::nat)"
proof -
  assume q: "q < 256" and r: "r < m"
  have "q * m + r < q * m + m" using r by simp
  also have "\<dots> = (q + 1) * m" by simp
  also have "\<dots> \<le> 256 * m" using q by (intro mult_le_mono1) simp
  finally show ?thesis .
qed

lemma div_digit: "r < m \<Longrightarrow> (q * m + r) div m = (q::nat)"
  by simp

lemma ip_num_bound: "ip_num bs < 256 ^ length bs"
proof (induction bs)
  case Nil
  show ?case by simp
next
  case (Cons b bs)
  show ?case using digit_bound[OF byte_bound[of b] Cons] by simp
qed

lemma top_byte: "ip_num (a # rest) div 256 ^ length rest = unat a"
  using div_digit[OF ip_num_bound[of rest], of "unat a"] by simp

lemma top_two: "ip_num (a # b # rest) div 256 ^ length rest = unat a * 256 + unat b"
proof -
  have "ip_num (a # b # rest) = (unat a * 256 + unat b) * 256 ^ length rest + ip_num rest"
    by (simp add: algebra_simps)
  then have "ip_num (a # b # rest) div 256 ^ length rest
      = ((unat a * 256 + unat b) * 256 ^ length rest + ip_num rest) div 256 ^ length rest"
    by (rule arg_cong)
  also have "\<dots> = unat a * 256 + unat b"
    by (rule div_digit[OF ip_num_bound])
  finally show ?thesis .
qed

lemma ip_num_inj: "length xs = length ys \<Longrightarrow> ip_num xs = ip_num ys \<Longrightarrow> xs = ys"
proof (induction xs ys rule: list_induct2)
  case Nil
  show ?case by simp
next
  case (Cons x xs y ys)
  have "ip_num (x # xs) div 256 ^ length xs = ip_num (y # ys) div 256 ^ length xs"
    using Cons.prems by simp
  then have "unat x = unat y" using top_byte[of x xs] top_byte[of y ys] Cons.hyps by simp
  then have xy: "x = y" by (simp add: word_unat_eq_iff)
  then have "ip_num xs = ip_num ys" using Cons.prems Cons.hyps by simp
  with Cons.IH xy show ?case by simp
qed


lemma prefix16:
  assumes "n \<le> 16"
  shows "ip_num (a # b # rest) div 2 ^ (8 * (length rest + 2) - n)
         = (unat a * 256 + unat b) div 2 ^ (16 - n)"
proof -
  have e: "8 * (length rest + 2) - n = 8 * length rest + (16 - n)"
    using assms by simp
  have p: "(2::nat) ^ (8 * length rest + (16 - n)) = 256 ^ length rest * 2 ^ (16 - n)"
    by (simp add: power_add power_mult)
  show ?thesis
    unfolding e p div_mult2_eq top_two ..
qed

lemma cidr_member_top:
  assumes "cidr_member (ba # bb # brest) n ip" and "n \<le> 16"
  shows "\<exists>a b rest. address ip = a # b # rest \<and> length rest = length brest \<and>
           (unat a * 256 + unat b) div 2 ^ (16 - n) = (unat ba * 256 + unat bb) div 2 ^ (16 - n)"
proof -
  from assms(1) have len: "length (address ip) = Suc (Suc (length brest))"
    by (simp add: cidr_member_def)
  then obtain a b rest where e: "address ip = a # b # rest" and l: "length rest = length brest"
    by (auto simp: length_Suc_conv)
  have lb: "length (ba # bb # brest) = length brest + 2" by simp
  from assms(1) have "ip_num (address ip) div 2 ^ (8 * length (ba # bb # brest) - n)
        = ip_num (ba # bb # brest) div 2 ^ (8 * length (ba # bb # brest) - n)"
    unfolding cidr_member_def by (rule conjunct2)
  then have "ip_num (a # b # rest) div 2 ^ (8 * (length rest + 2) - n)
        = ip_num (ba # bb # brest) div 2 ^ (8 * (length brest + 2) - n)"
    unfolding e lb l .
  then have "(unat a * 256 + unat b) div 2 ^ (16 - n) = (unat ba * 256 + unat bb) div 2 ^ (16 - n)"
    unfolding prefix16[OF assms(2)] .
  with e l show ?thesis by blast
qed

lemma address_v4: "length (address ip) = 4 \<Longrightarrow> To4 ip = Some (address ip)"
  by (auto simp: address_def To4_def split: if_splits)

lemma address_v6: "length (address ip) = 16 \<Longrightarrow> To4 ip = None \<and> address ip = ip"
  by (auto simp: address_def To4_def split: if_splits)

lemma two_more: "length rest = 2 \<Longrightarrow> \<exists>c d. rest = [c, d]"
  by (auto simp: length_Suc_conv numeral_eq_Suc)

lemma fourteen_more:
  "length rest = 14 \<Longrightarrow>
   \<exists>c d e f g h i j k l m n p q. rest = [c, d, e, f, g, h, i, j, k, l, m, n, p, q]"
  by (auto simp: length_Suc_conv numeral_eq_Suc)

lemma byte_eq_numeral: "unat (b::byte) = numeral k \<Longrightarrow> b = numeral k"
  by (metis byte_of_unat of_nat_numeral)

lemma split_at: "0 < m \<Longrightarrow> (x * (k * m) + y) div m = x * k + y div (m::nat)"
proof -
  assume m: "0 < m"
  have "x * (k * m) + y = y + (x * k) * m" by simp
  then show ?thesis using m by (simp only: div_mult_self1)
qed

lemma digits: "z < m \<Longrightarrow> x * m + z = n \<Longrightarrow> x = n div m \<and> z = n mod (m::nat)"
  by auto

lemma top_8: "(y::nat) < 256 \<Longrightarrow> (x * 256 + y) div 256 = n \<Longrightarrow> x = n"
  by simp

lemma top_12: "(y::nat) < 256 \<Longrightarrow> (x * 256 + y) div 16 = 2753 \<Longrightarrow> x = 172 \<and> y div 16 = 1"
proof -
  assume y: "y < 256" and h: "(x * 256 + y) div 16 = 2753"
  have "(x * (16 * 16) + y) div 16 = x * 16 + y div 16" by (rule split_at) simp
  then have e: "x * 16 + y div 16 = 2753" using h by simp
  have "y div 16 < 16" using y by simp
  from digits[OF this e] show ?thesis by simp
qed

lemma top_16: "(y::nat) < 256 \<Longrightarrow> x * 256 + y = n \<Longrightarrow> x = n div 256 \<and> y = n mod 256"
  by (rule digits)

lemma top_10: "(y::nat) < 256 \<Longrightarrow> (x * 256 + y) div 64 = 1018 \<Longrightarrow> x = 254 \<and> y div 64 = 2"
proof -
  assume y: "y < 256" and h: "(x * 256 + y) div 64 = 1018"
  have "(x * (4 * 64) + y) div 64 = x * 4 + y div 64" by (rule split_at) simp
  then have e: "x * 4 + y div 64 = 1018" using h by simp
  have "y div 64 < 4" using y by simp
  from digits[OF this e] show ?thesis by simp
qed

lemma top_7: "(y::nat) < 256 \<Longrightarrow> (x * 256 + y) div 512 = 126 \<Longrightarrow> x div 2 = 126"
proof -
  assume y: "y < 256" and h: "(x * 256 + y) div 512 = 126"
  have "(x * 256 + y) div 512 = (x * 256 + y) div 256 div 2" by (simp add: div_mult2_eq[symmetric])
  also have "(x * 256 + y) div 256 = x" using y by simp
  finally show ?thesis using h by simp
qed

lemma mask_16: "unat (b::byte) div 16 = 1 \<Longrightarrow> b AND 0xF0 = 0x10"
proof -
  assume "unat b div 16 = 1"
  then have "unat b \<in> set [16..<32]" by (simp only: set_upt) (simp; arith)
  then have "b \<in> of_nat ` set [16..<32]" by (metis byte_of_unat imageI)
  then show ?thesis by (simp add: upt_rec) (elim disjE; simp)
qed

lemma mask_64: "unat (b::byte) div 64 = 2 \<Longrightarrow> b AND 0xC0 = 0x80"
proof -
  assume "unat b div 64 = 2"
  then have "unat b \<in> set [128..<192]" by (simp only: set_upt) (simp; arith)
  then have "b \<in> of_nat ` set [128..<192]" by (metis byte_of_unat imageI)
  then show ?thesis by (simp add: upt_rec) (elim disjE; simp)
qed

lemma mask_2: "unat (b::byte) div 2 = 126 \<Longrightarrow> b AND 0xFE = 0xFC"
proof -
  assume "unat b div 2 = 126"
  then have "unat b \<in> set [252..<254]" by (simp only: set_upt) (simp; arith)
  then have "b \<in> of_nat ` set [252..<254]" by (metis byte_of_unat imageI)
  then show ?thesis by (simp add: upt_rec) (elim disjE; simp)
qed

lemma upt_4: "[0..<4] = [0, 1, 2, 3]"
  by (simp add: upt_rec)

lemma upt_16: "[0..<16] = [0, 1, 2, 3, 4, 5, 6, 7, 8, 9, 10, 11, 12, 13, 14, 15]"
  by (simp add: upt_rec)

lemma masks_v4:
  "maskBytes 8 4 = [0xff, 0, 0, 0]" "maskBytes 12 4 = [0xff, 0xf0, 0, 0]"
  "maskBytes 16 4 = [0xff, 0xff, 0, 0]" "maskBytes 10 4 = [0xff, 0xc0, 0, 0]"
  by (simp_all add: maskBytes.simps)

lemma masks_v6:
  "maskBytes 7 16 = [0xfe, 0, 0, 0, 0, 0, 0, 0, 0, 0, 0, 0, 0, 0, 0, 0]"
  "maskBytes 10 16 = [0xff, 0xc0, 0, 0, 0, 0, 0, 0, 0, 0, 0, 0, 0, 0, 0, 0]"
  "maskBytes 128 16 = [0xff, 0xff, 0xff, 0xff, 0xff, 0xff, 0xff, 0xff,
                       0xff, 0xff, 0xff, 0xff, 0xff, 0xff, 0xff, 0xff]"
  by (simp_all add: maskBytes.simps)

lemma Contains_v4:
  "To4 ip = Some [a, b, c, d] \<Longrightarrow>
   Contains \<lparr>net_IP = [n0, n1, n2, n3], net_Mask = [m0, m1, m2, m3]\<rparr> ip
   = (n0 AND m0 = a AND m0 \<and> n1 AND m1 = b AND m1 \<and> n2 AND m2 = c AND m2 \<and> n3 AND m3 = d AND m3)"
  by (simp add: Contains_def networkNumberAndMask_def To4_def upt_4)

lemma inRanges_hit:
  "cidr \<in> set rs \<Longrightarrow> ParseCIDR cidr = Some network \<Longrightarrow> Contains network ip \<Longrightarrow> inRanges rs ip"
  by (induction rs) (auto split: option.splits)

lemma isPrivateIP_inRanges: "inRanges privateRanges ip \<Longrightarrow> isPrivateIP ip"
  by (simp add: isPrivateIP_def)

lemma v4_member:
  assumes "cidr_member [n0, n1, n2, n3] n ip" and "n \<le> 16"
  shows "\<exists>a b c d. To4 ip = Some [a, b, c, d] \<and>
           (unat a * 256 + unat b) div 2 ^ (16 - n) = (unat n0 * 256 + unat n1) div 2 ^ (16 - n)"
proof -
  from cidr_member_top[OF assms] obtain a b rest where
    e: "address ip = a # b # rest" and l: "length rest = 2"
    and v: "(unat a * 256 + unat b) div 2 ^ (16 - n) = (unat n0 * 256 + unat n1) div 2 ^ (16 - n)"
    by auto
  obtain c d where r: "rest = [c, d]" using two_more[OF l] by blast
  have "To4 ip = Some [a, b, c, d]" using address_v4[of ip] e r by simp
  with v show ?thesis by blast
qed

lemma member_127: "cidr_member [127, 0, 0, 0] 8 ip \<Longrightarrow> isPrivateIP ip"
proof -
  assume h: "cidr_member [127, 0, 0, 0] 8 ip"
  from v4_member[OF h] obtain a b c d where t: "To4 ip = Some [a, b, c, d]"
    and v: "(unat a * 256 + unat b) div 2 ^ (16 - 8) = (unat (127::byte) * 256 + unat (0::byte)) div 2 ^ (16 - 8)"
    by auto
  have "unat a = 127" using top_8[OF byte_bound[of b], of "unat a" 127] v by simp
  then have a: "a = 127" by (rule byte_eq_numeral)
  show ?thesis by (simp add: isPrivateIP_def IsLoopback_def t a)
qed

lemma member_10: "cidr_member [10, 0, 0, 0] 8 ip \<Longrightarrow> isPrivateIP ip"
proof -
  assume h: "cidr_member [10, 0, 0, 0] 8 ip"
  from v4_member[OF h] obtain a b c d where t: "To4 ip = Some [a, b, c, d]"
    and v: "(unat a * 256 + unat b) div 2 ^ (16 - 8) = (unat (10::byte) * 256 + unat (0::byte)) div 2 ^ (16 - 8)"
    by auto
  have "unat a = 10" using top_8[OF byte_bound[of b], of "unat a" 10] v by simp
  then have a: "a = 10" by (rule byte_eq_numeral)
  have "Contains \<lparr>net_IP = [10, 0, 0, 0], net_Mask = maskBytes 8 4\<rparr> ip"
    by (simp add: Contains_v4[OF t] masks_v4 a)
  then show ?thesis
    by (intro isPrivateIP_inRanges inRanges_hit[where cidr = "''10.0.0.0/8''"])
       (simp_all add: privateRanges_def ParseCIDR_def)
qed

lemma member_172: "cidr_member [172, 16, 0, 0] 12 ip \<Longrightarrow> isPrivateIP ip"
proof -
  assume h: "cidr_member [172, 16, 0, 0] 12 ip"
  from v4_member[OF h] obtain a b c d where t: "To4 ip = Some [a, b, c, d]"
    and v: "(unat a * 256 + unat b) div 2 ^ (16 - 12) = (unat (172::byte) * 256 + unat (16::byte)) div 2 ^ (16 - 12)"
    by auto
  have "unat a = 172 \<and> unat b div 16 = 1"
    using top_12[OF byte_bound[of b], of "unat a"] v by simp
  then have a: "a = 172" and b: "b AND 0xF0 = 0x10" by (auto intro: byte_eq_numeral mask_16)
  have "Contains \<lparr>net_IP = [172, 16, 0, 0], net_Mask = maskBytes 12 4\<rparr> ip"
    by (simp add: Contains_v4[OF t] masks_v4 a b)
  then show ?thesis
    by (intro isPrivateIP_inRanges inRanges_hit[where cidr = "''172.16.0.0/12''"])
       (simp_all add: privateRanges_def ParseCIDR_def)
qed

lemma member_192: "cidr_member [192, 168, 0, 0] 16 ip \<Longrightarrow> isPrivateIP ip"
proof -
  assume h: "cidr_member [192, 168, 0, 0] 16 ip"
  from v4_member[OF h] obtain a b c d where t: "To4 ip = Some [a, b, c, d]"
    and v: "(unat a * 256 + unat b) div 2 ^ (16 - 16) = (unat (192::byte) * 256 + unat (168::byte)) div 2 ^ (16 - 16)"
    by auto
  have "unat a = 192 \<and> unat b = 168"
    using top_16[OF byte_bound[of b], of "unat a" 49320] v by simp
  then have a: "a = 192" and b: "b = 168" by (auto intro: byte_eq_numeral)
  have "Contains \<lparr>net_IP = [192, 168, 0, 0], net_Mask = maskBytes 16 4\<rparr> ip"
    by (simp add: Contains_v4[OF t] masks_v4 a b)
  then show ?thesis
    by (intro isPrivateIP_inRanges inRanges_hit[where cidr = "''192.168.0.0/16''"])
       (simp_all add: privateRanges_def ParseCIDR_def)
qed

lemma member_169: "cidr_member [169, 254, 0, 0] 16 ip \<Longrightarrow> isPrivateIP ip"
proof -
  assume h: "cidr_member [169, 254, 0, 0] 16 ip"
  from v4_member[OF h] obtain a b c d where t: "To4 ip = Some [a, b, c, d]"
    and v: "(unat a * 256 + unat b) div 2 ^ (16 - 16) = (unat (169::byte) * 256 + unat (254::byte)) div 2 ^ (16 - 16)"
    by auto
  have "unat a = 169 \<and> unat b = 254"
    using top_16[OF byte_bound[of b], of "unat a" 43518] v by simp
  then have a: "a = 169" and b: "b = 254" by (auto intro: byte_eq_numeral)
  show ?thesis by (simp add: isPrivateIP_def IsLinkLocalUnicast_def t a b)
qed


lemma member_loopback6:
  "cidr_member [0, 0, 0, 0, 0, 0, 0, 0, 0, 0, 0, 0, 0, 0, 0, 1] 128 ip \<Longrightarrow> isPrivateIP ip"
proof -
  let ?lo = "[0, 0, 0, 0, 0, 0, 0, 0, 0, 0, 0, 0, 0, 0, 0, 1] :: byte list"
  assume h: "cidr_member ?lo 128 ip"
  then have len: "length (address ip) = length ?lo"
    and num: "ip_num (address ip) div 2 ^ (8 * length ?lo - 128) = ip_num ?lo div 2 ^ (8 * length ?lo - 128)"
    unfolding cidr_member_def by blast+
  have "8 * length ?lo - 128 = 0" by simp
  with num have "ip_num (address ip) = ip_num ?lo" by (simp only: power_0 div_by_1)
  with len have "address ip = ?lo" by (rule ip_num_inj)
  moreover have "length (address ip) = 16" using len by simp
  ultimately have "To4 ip = None" and "ip = ?lo" using address_v6[of ip] by auto
  then show ?thesis by (simp add: isPrivateIP_def IsLoopback_def Equal_def IPv6loopback_def)
qed

lemma v6_member:
  assumes "cidr_member [n0, n1, n2, n3, n4, n5, n6, n7, n8, n9, n10, n11, n12, n13, n14, n15] n ip"
    and "n \<le> 16"
  shows "\<exists>a b rest. To4 ip = None \<and> ip = a # b # rest \<and> length rest = 14 \<and>
           (unat a * 256 + unat b) div 2 ^ (16 - n) = (unat n0 * 256 + unat n1) div 2 ^ (16 - n)"
proof -
  from cidr_member_top[OF assms] obtain a b rest where
    e: "address ip = a # b # rest" and l: "length rest = 14"
    and v: "(unat a * 256 + unat b) div 2 ^ (16 - n) = (unat n0 * 256 + unat n1) div 2 ^ (16 - n)"
    by auto
  have "length (address ip) = 16" using e l by simp
  then have "To4 ip = None" and "address ip = ip" using address_v6[of ip] by auto
  with e l v show ?thesis by auto
qed

lemma Contains_v6:
  assumes "To4 ip = None" and "ip = a # b # rest" and "length rest = 14"
    and "n0 \<noteq> 0"
  shows "Contains \<lparr>net_IP = [n0, n1, 0, 0, 0, 0, 0, 0, 0, 0, 0, 0, 0, 0, 0, 0],
                   net_Mask = [m0, m1, 0, 0, 0, 0, 0, 0, 0, 0, 0, 0, 0, 0, 0, 0]\<rparr> ip
         = (n0 AND m0 = a AND m0 \<and> n1 AND m1 = b AND m1)"
proof -
  obtain c d e f g h i j k l m n p q where r: "rest = [c, d, e, f, g, h, i, j, k, l, m, n, p, q]"
    using fourteen_more[OF assms(3)] by blast
  have t: "To4 [n0, n1, 0, 0, 0, 0, 0, 0, 0, 0, 0, 0, 0, 0, 0, 0] = None"
    using assms(4) by (simp add: To4_def)
  have t': "To4 [a, b, c, d, e, f, g, h, i, j, k, l, m, n, p, q] = None"
    using assms(1) assms(2) r by simp
  show ?thesis
    unfolding assms(2) r
    by (simp add: Contains_def networkNumberAndMask_def t t' upt_16)
qed

lemma member_fc00:
  "cidr_member [0xfc, 0, 0, 0, 0, 0, 0, 0, 0, 0, 0, 0, 0, 0, 0, 0] 7 ip \<Longrightarrow> isPrivateIP ip"
proof -
  assume h: "cidr_member [0xfc, 0, 0, 0, 0, 0, 0, 0, 0, 0, 0, 0, 0, 0, 0, 0] 7 ip"
  from v6_member[OF h] obtain a b rest where t: "To4 ip = None" and e: "ip = a # b # rest"
    and l: "length rest = 14"
    and v: "(unat a * 256 + unat b) div 2 ^ (16 - 7) = (unat (0xfc::byte) * 256 + unat (0::byte)) div 2 ^ (16 - 7)"
    by auto
  have "unat a div 2 = 126" using top_7[OF byte_bound[of b], of "unat a"] v by simp
  then have a: "a AND 0xFE = 0xFC" by (rule mask_2)
  have "Contains \<lparr>net_IP = [0xfc, 0, 0, 0, 0, 0, 0, 0, 0, 0, 0, 0, 0, 0, 0, 0],
                  net_Mask = maskBytes 7 16\<rparr> ip"
    unfolding masks_v6 by (subst Contains_v6[OF t e l]) (simp_all add: a)
  then show ?thesis
    by (intro isPrivateIP_inRanges inRanges_hit[where cidr = "''fc00::/7''"])
       (simp_all add: privateRanges_def ParseCIDR_def)
qed

lemma member_fe80:
  "cidr_member [0xfe, 0x80, 0, 0, 0, 0, 0, 0, 0, 0, 0, 0, 0, 0, 0, 0] 10 ip \<Longrightarrow> isPrivateIP ip"
proof -
  assume h: "cidr_member [0xfe, 0x80, 0, 0, 0, 0, 0, 0, 0, 0, 0, 0, 0, 0, 0, 0] 10 ip"
  from v6_member[OF h] obtain a b rest where t: "To4 ip = None" and e: "ip = a # b # rest"
    and l: "length rest = 14"
    and v: "(unat a * 256 + unat b) div 2 ^ (16 - 10) = (unat (0xfe::byte) * 256 + unat (0x80::byte)) div 2 ^ (16 - 10)"
    by auto
  have "unat a = 254 \<and> unat b div 64 = 2" using top_10[OF byte_bound[of b], of "unat a"] v by simp
  then have a: "a = 254" and b: "b AND 0xC0 = 0x80" by (auto intro: byte_eq_numeral mask_64)
  have "To4 (a # b # rest) = None" using t e by simp
  then have "IsLinkLocalUnicast ip" by (simp add: IsLinkLocalUnicast_def e l a b)
  then show ?thesis by (simp add: isPrivateIP_def)
qed

lemma in_listed_ranges_private: "in_listed_ranges ip \<Longrightarrow> isPrivateIP ip"
  unfolding in_listed_ranges_def listed_ranges_def
  by (auto intro: member_127 member_10 member_172 member_192 member_169
                  member_loopback6 member_fc00 member_fe80)

lemma checkIPs_first:
  "isPrivateIP ip \<Longrightarrow> checkIPs (ip # ips) False = Some (PrivateIPNotAllowed (IP_String ip))"
  by simp

lemma checkIPs_private:
  "list_ex isPrivateIP ips \<Longrightarrow> checkIPs ips False \<noteq> None"
  by (induction ips) auto

lemma checkIPs_allowed: "checkIPs ips True = None"
  by (induction ips) auto

lemma ToLower_digits: "prefix ''127.'' h \<Longrightarrow> prefix ''127.'' (ToLower h)"
  by (auto simp: prefix_def ToLower_def lower_byte_def)

lemma ToLower_aliases:
  "ToLower ''localhost'' = ''localhost''" "ToLower ''127.0.0.1'' = ''127.0.0.1''"
  "ToLower ''::1'' = ''::1''" "ToLower ''0.0.0.0'' = ''0.0.0.0''" "ToLower ''[::]'' = ''[::]''"
  by (simp_all add: ToLower_def lower_byte_def)

lemma HasPrefix_prefix: "HasPrefix s p = prefix p s"
proof
  assume "HasPrefix s p"
  then have "s = p @ drop (length p) s"
    unfolding HasPrefix_def by (metis append_take_drop_id)
  then show "prefix p s" by (metis prefixI)
next
  assume "prefix p s"
  then show "HasPrefix s p" by (auto simp: HasPrefix_def prefix_def)
qed

lemma isLocalhost_alias: "isLocalhost h = localhost_alias (ToLower h)"
  by (auto simp: isLocalhost_def localhost_alias_def HasPrefix_prefix)

lemma alias_lower: "localhost_alias h \<Longrightarrow> localhost_alias (ToLower h)"
  unfolding localhost_alias_def
  by (elim disjE) (simp_all add: ToLower_aliases ToLower_digits)

lemma alias_not_empty: "localhost_alias h \<Longrightarrow> h \<noteq> ''''"
  by (auto simp: localhost_alias_def)

section \<open>Lemmas on traces\<close>



lemma Validate_lookups: "list_all is_lookup (fst (ValidateExecutionURL e u al ap))"
  by (auto simp: ValidateExecutionURL_def Let_def split: sum.splits)



text \<open>What \<open>CheckRedirect\<close> returns, and the events it leaves.\<close>

lemma CheckRedirect_cases:
  assumes "CheckRedirect cfg e target n = (evs, r)"
  shows "(MaxRedirects cfg \<le> int n \<and> evs = [] \<and> r = Some (StoppedAfter (MaxRedirects cfg))) \<or>
         (int n < MaxRedirects cfg \<and>
          (\<exists>lk v. list_all is_lookup lk \<and>
                  ValidateExecutionURL e target (AllowLocalhost cfg) (AllowPrivateIPs cfg) = (lk, v) \<and>
                  evs = lk @ [EvValidate target (AllowLocalhost cfg) (AllowPrivateIPs cfg) v] \<and>
                  r = map_option RedirectBlocked v))"
proof (cases "MaxRedirects cfg \<le> int n")
  case True
  with assms show ?thesis by (simp add: CheckRedirect_def)
next
  case False
  obtain lk v where v: "ValidateExecutionURL e target (AllowLocalhost cfg) (AllowPrivateIPs cfg) = (lk, v)"
    by (cases "ValidateExecutionURL e target (AllowLocalhost cfg) (AllowPrivateIPs cfg)")
  have "list_all is_lookup lk" using Validate_lookups[of e target "AllowLocalhost cfg" "AllowPrivateIPs cfg"] v
    by simp
  with assms False v show ?thesis
    by (auto simp: CheckRedirect_def split: option.splits)
qed



lemma NewRequest_fields:
  "NewRequest w m u b = Inr req \<Longrightarrow>
   req_Method req = (if m = '''' then ''GET'' else m) \<and> req_URL req = u \<and> req_Body req = b"
  by (auto simp: NewRequest_def Let_def split: if_splits sum.splits)

lemma executeHTTPRequest_cases:
  "(\<exists>err. NewRequest w m u (prepareBody m b) = Inl err \<and>
          executeHTTPRequest cfg w m u h b = ([], Inl (CreateRequestFailed err))) \<or>
   (\<exists>req. NewRequest w m u (prepareBody m b) = Inr req \<and>
          fst (executeHTTPRequest cfg w m u h b)
            = EvRequest (if m = '''' then ''GET'' else m) u (prepareBody m b) # fst (do_hops cfg w u 0) \<and>
          snd (executeHTTPRequest cfg w m u h b)
            = (case snd (do_hops cfg w u 0) of
                 Inl err \<Rightarrow> Inl (RequestFailed err)
               | Inr resp \<Rightarrow>
                   (case readLimited (MaxResponseSize cfg) resp of
                      Inl err \<Rightarrow> Inl (ReadFailed err)
                    | Inr responseBody \<Rightarrow>
                        Inr \<lparr>er_Status = resp_StatusCode resp,
                             er_Headers = firstValues (resp_Header resp),
                             er_Body = responseBody,
                             er_DurationMs = 0\<rparr>)))"
proof (cases "NewRequest w m u (prepareBody m b)")
  case (Inl err)
  then show ?thesis by (simp add: executeHTTPRequest_def)
next
  case (Inr req)
  from NewRequest_fields[OF Inr] Inr show ?thesis
    by (simp add: executeHTTPRequest_def split: prod.splits)
qed

lemma agent_executeHTTPRequest_cases:
  "(\<exists>err. NewRequest w (a_Method q) (a_URL q) (prepareBody (a_Method q) (a_Body q)) = Inl err \<and>
          agent_executeHTTPRequest w q = ([], Inl (CreateRequestFailed err))) \<or>
   (\<exists>req. NewRequest w (a_Method q) (a_URL q) (prepareBody (a_Method q) (a_Body q)) = Inr req \<and>
          fst (agent_executeHTTPRequest w q)
            = EvRequest (if a_Method q = '''' then ''GET'' else a_Method q) (a_URL q)
                (prepareBody (a_Method q) (a_Body q)) # fst (agent_do_hops w (a_URL q) 0) \<and>
          snd (agent_executeHTTPRequest w q)
            = (case snd (agent_do_hops w (a_URL q) 0) of
                 Inl err \<Rightarrow> Inl (RequestFailed err)
               | Inr resp \<Rightarrow>
                   (case readLimited agent_MaxResponseSize resp of
                      Inl err \<Rightarrow> Inl (ReadFailed err)
                    | Inr responseBody \<Rightarrow>
                        Inr \<lparr>ar_Status = resp_StatusCode resp,
                             ar_StatusText = resp_Status resp,
                             ar_Headers = resp_Header resp,
                             ar_Body = responseBody,
                             ar_Duration = w_elapsed w\<rparr>)))"
proof (cases "NewRequest w (a_Method q) (a_URL q) (prepareBody (a_Method q) (a_Body q))")
  case (Inl err)
  then show ?thesis by (simp add: agent_executeHTTPRequest_def)
next
  case (Inr req)
  from NewRequest_fields[OF Inr] Inr show ?thesis
    by (simp add: agent_executeHTTPRequest_def split: prod.splits)
qed

text \<open>The ways a call of the public handler can go.\<close>

lemma validateAndExecute_cases:
  "(\<exists>lk err. list_all is_lookup lk \<and>
       validateAndExecute cfg w method url headers body
         = (lk @ [EvValidate url (AllowLocalhost cfg) (AllowPrivateIPs cfg) (Some err)],
            ErrorReply 403 ''ssrf_protection'' (Blocked err))) \<or>
   (\<exists>lk. list_all is_lookup lk \<and>
       ValidateExecutionURL (env_at w 0) url (AllowLocalhost cfg) (AllowPrivateIPs cfg) = (lk, None) \<and>
       fst (validateAndExecute cfg w method url headers body)
         = lk @ [EvValidate url (AllowLocalhost cfg) (AllowPrivateIPs cfg) None]
              @ fst (executeHTTPRequest cfg w method url headers body) \<and>
       snd (validateAndExecute cfg w method url headers body)
         = (case snd (executeHTTPRequest cfg w method url headers body) of
              Inl err \<Rightarrow> ErrorReply 502 ''execution_error'' (Failed err)
            | Inr response \<Rightarrow> Executed (response\<lparr>er_DurationMs := w_elapsed w\<rparr>)))"
proof -
  obtain lk v where v: "ValidateExecutionURL (env_at w 0) url (AllowLocalhost cfg) (AllowPrivateIPs cfg)
                          = (lk, v)"
    by (cases "ValidateExecutionURL (env_at w 0) url (AllowLocalhost cfg) (AllowPrivateIPs cfg)")
  have lk: "list_all is_lookup lk"
    using Validate_lookups[of "env_at w 0" url "AllowLocalhost cfg" "AllowPrivateIPs cfg"] v by simp
  show ?thesis
  proof (cases v)
    case (Some err)
    with v lk show ?thesis by (simp add: validateAndExecute_def)
  next
    case None
    with v lk show ?thesis
      by (simp add: validateAndExecute_def split: prod.splits)
  qed
qed

lemma ExecuteRequest_cases:
  "(fst (ExecuteRequest cfg w c) = [] \<and>
      (\<exists>code kind d. snd (ExecuteRequest cfg w c) = ErrorReply code kind d)) \<or>
   (\<exists>item method url headers body.
       c_row c = Row item \<and> item_Method item = Some method \<and>
       ExecuteRequest cfg w c = validateAndExecute cfg w method url headers body)"
  unfolding ExecuteRequest_def Let_def
  by (simp split: fetched.splits sum.splits option.splits) blast





text \<open>Reading the requests off a trace.\<close>

lemma sent_append: "sent (xs @ ys) = sent xs @ sent ys"
  by (induction xs rule: sent.induct) simp_all

lemma followed_append: "followed (xs @ ys) = followed xs @ followed ys"
  by (induction xs rule: followed.induct) simp_all

lemma validated_append: "validated (xs @ ys) = validated xs @ validated ys"
  by (induction xs rule: validated.induct) simp_all

lemma requests_append: "requests (xs @ ys) = requests xs @ requests ys"
  by (induction xs rule: requests.induct) simp_all

lemma lookups_silent:
  "list_all is_lookup xs \<Longrightarrow>
   sent xs = [] \<and> followed xs = [] \<and> validated xs = [] \<and> requests xs = []"
proof (induction xs)
  case Nil
  show ?case by simp
next
  case (Cons x xs)
  then show ?case by (cases x) simp_all
qed

lemma do_hops_stop:
  assumes "w_roundTrip w n u = Redirect r t" and "MaxRedirects cfg \<le> int (Suc n)"
  shows "do_hops cfg w u n = ([], Inl (CheckRedirectFailed (StoppedAfter (MaxRedirects cfg))))"
  using assms by (simp add: do_hops.simps CheckRedirect_def)

lemma do_hops_step:
  assumes "w_roundTrip w n u = Redirect r t"
    and "int (Suc n) < MaxRedirects cfg"
    and "snd (ValidateExecutionURL (env_at w (Suc n)) t (AllowLocalhost cfg) (AllowPrivateIPs cfg)) = None"
  shows "sent (fst (do_hops cfg w u n)) = t # sent (fst (do_hops cfg w t (Suc n))) \<and>
         followed (fst (do_hops cfg w u n)) = t # followed (fst (do_hops cfg w t (Suc n))) \<and>
         validated (fst (do_hops cfg w u n)) = t # validated (fst (do_hops cfg w t (Suc n))) \<and>
         snd (do_hops cfg w u n) = snd (do_hops cfg w t (Suc n))"
proof -
  obtain lk v where v: "ValidateExecutionURL (env_at w (Suc n)) t (AllowLocalhost cfg) (AllowPrivateIPs cfg)
                          = (lk, v)"
    by (cases "ValidateExecutionURL (env_at w (Suc n)) t (AllowLocalhost cfg) (AllowPrivateIPs cfg)")
  with assms(3) have vn: "v = None" by simp
  have lk: "list_all is_lookup lk"
    using Validate_lookups[of "env_at w (Suc n)" t "AllowLocalhost cfg" "AllowPrivateIPs cfg"] v by simp
  obtain evs' res where rec: "do_hops cfg w t (Suc n) = (evs', res)"
    by (cases "do_hops cfg w t (Suc n)")
  have "do_hops cfg w u n
          = (lk @ [EvValidate t (AllowLocalhost cfg) (AllowPrivateIPs cfg) None] @ [EvFollow t] @ evs', res)"
    using assms(1) assms(2) v vn rec by (simp add: do_hops.simps CheckRedirect_def)
  then show ?thesis
    using rec lookups_silent[OF lk]
    by (simp add: sent_append followed_append validated_append)
qed

lemma do_hops_requests: "requests (fst (do_hops cfg w url nvia)) = []"
proof (induction cfg w url nvia rule: do_hops.induct)
  case (1 cfg w url nvia)
  show ?case
  proof (cases "w_roundTrip w nvia url")
    case (TransportError err)
    then show ?thesis by (simp add: do_hops.simps)
  next
    case (Final resp)
    then show ?thesis by (simp add: do_hops.simps)
  next
    case (Redirect resp target)
    obtain evs r where cr: "CheckRedirect cfg (env_at w (Suc nvia)) target (Suc nvia) = (evs, r)"
      by (cases "CheckRedirect cfg (env_at w (Suc nvia)) target (Suc nvia)")
    have evs: "requests evs = []"
      using CheckRedirect_cases[OF cr] lookups_silent by (auto simp: requests_append)
    show ?thesis
    proof (cases r)
      case (Some err)
      with Redirect cr evs show ?thesis by (simp add: do_hops.simps)
    next
      case None
      obtain evs' res where rec: "do_hops cfg w target (Suc nvia) = (evs', res)"
        by (cases "do_hops cfg w target (Suc nvia)")
      have "requests evs' = []" using "1.IH"[OF Redirect cr[symmetric] None] rec by simp
      with Redirect cr None rec evs show ?thesis
        by (simp add: do_hops.simps requests_append)
    qed
  qed
qed

lemma agent_do_hops_stop:
  assumes "w_roundTrip w n u = Redirect r t" and "agent_MaxRedirects \<le> int (Suc n)"
  shows "agent_do_hops w u n = ([], Inl (CheckRedirectFailed (StoppedAfter agent_MaxRedirects)))"
  using assms by (simp add: agent_do_hops.simps agent_CheckRedirect_def)

lemma agent_do_hops_step:
  assumes "w_roundTrip w n u = Redirect r t" and "int (Suc n) < agent_MaxRedirects"
  shows "fst (agent_do_hops w u n) = EvFollow t # fst (agent_do_hops w t (Suc n)) \<and>
         snd (agent_do_hops w u n) = snd (agent_do_hops w t (Suc n))"
  using assms by (simp add: agent_do_hops.simps agent_CheckRedirect_def split: prod.splits)

lemma agent_do_hops_requests: "requests (fst (agent_do_hops w url nvia)) = []"
proof (induction w url nvia rule: agent_do_hops.induct)
  case (1 w url nvia)
  show ?case
  proof (cases "w_roundTrip w nvia url")
    case (TransportError err)
    then show ?thesis by (simp add: agent_do_hops.simps)
  next
    case (Final resp)
    then show ?thesis by (simp add: agent_do_hops.simps)
  next
    case (Redirect resp target)
    show ?thesis
    proof (cases "agent_CheckRedirect (Suc nvia)")
      case (Some err)
      with Redirect show ?thesis by (simp add: agent_do_hops.simps)
    next
      case None
      obtain evs' res where rec: "agent_do_hops w target (Suc nvia) = (evs', res)"
        by (cases "agent_do_hops w target (Suc nvia)")
      have "requests evs' = []" using "1.IH"[OF Redirect None] rec by simp
      with Redirect None rec show ?thesis by (simp add: agent_do_hops.simps)
    qed
  qed
qed

text \<open>The first request of a call, as the engines build it.\<close>

lemma executeHTTPRequest_requests:
  "requests (fst (executeHTTPRequest cfg w m u h b)) = [] \<or>
   requests (fst (executeHTTPRequest cfg w m u h b))
     = [(if m = '''' then ''GET'' else m, u, prepareBody m b)]"
  using executeHTTPRequest_cases[of w m u b cfg h]
  by (elim disjE exE conjE) (simp_all add: do_hops_requests)

lemma executeHTTPRequest_sends:
  assumes "NewRequest w m u (prepareBody m b) = Inr req"
  shows "requests (fst (executeHTTPRequest cfg w m u h b))
           = [(if m = '''' then ''GET'' else m, u, prepareBody m b)]"
  using executeHTTPRequest_cases[of w m u b cfg h] assms
  by (elim disjE exE conjE) (simp_all add: do_hops_requests)

lemma agent_executeHTTPRequest_requests:
  "requests (fst (agent_executeHTTPRequest w q)) = [] \<or>
   requests (fst (agent_executeHTTPRequest w q))
     = [(if a_Method q = '''' then ''GET'' else a_Method q, a_URL q,
         prepareBody (a_Method q) (a_Body q))]"
  using agent_executeHTTPRequest_cases[of w q]
  by (elim disjE exE conjE) (simp_all add: agent_do_hops_requests)

lemma agent_executeHTTPRequest_sends:
  assumes "NewRequest w (a_Method q) (a_URL q) (prepareBody (a_Method q) (a_Body q)) = Inr req"
  shows "requests (fst (agent_executeHTTPRequest w q))
           = [(if a_Method q = '''' then ''GET'' else a_Method q, a_URL q,
               prepareBody (a_Method q) (a_Body q))]"
  using agent_executeHTTPRequest_cases[of w q] assms
  by (elim disjE exE conjE) (simp_all add: agent_do_hops_requests)

lemma validateAndExecute_requests:
  "requests (fst (validateAndExecute cfg w m u h b)) = [] \<or>
   requests (fst (validateAndExecute cfg w m u h b))
     = [(if m = '''' then ''GET'' else m, u, prepareBody m b)]"
proof -
  from validateAndExecute_cases[of cfg w m u h b] show ?thesis
  proof (elim disjE exE conjE)
    fix lk err
    assume "list_all is_lookup lk"
      and "validateAndExecute cfg w m u h b
             = (lk @ [EvValidate u (AllowLocalhost cfg) (AllowPrivateIPs cfg) (Some err)],
                ErrorReply 403 ''ssrf_protection'' (Blocked err))"
    then show ?thesis using lookups_silent[of lk] by (simp add: requests_append)
  next
    fix lk
    assume lk: "list_all is_lookup lk"
      and tr: "fst (validateAndExecute cfg w m u h b)
             = lk @ [EvValidate u (AllowLocalhost cfg) (AllowPrivateIPs cfg) None]
                 @ fst (executeHTTPRequest cfg w m u h b)"
    have "requests (fst (validateAndExecute cfg w m u h b))
            = requests (fst (executeHTTPRequest cfg w m u h b))"
      unfolding tr using lookups_silent[OF lk] by (simp add: requests_append)
    then show ?thesis using executeHTTPRequest_requests[of cfg w m u h b] by simp
  qed
qed

lemma executeHandler_run:
  "a_Method q \<noteq> '''' \<Longrightarrow> a_URL q \<noteq> '''' \<Longrightarrow>
   fst (executeHandler w (Inr q)) = fst (agent_executeHTTPRequest w q) \<and>
   snd (executeHandler w (Inr q))
     = (case snd (agent_executeHTTPRequest w q) of
          Inl err \<Rightarrow> AgentFailed err
        | Inr response \<Rightarrow> AgentExecuted response)"
  by (simp add: executeHandler_def split: prod.splits sum.splits)

lemma executeHandler_executed:
  assumes "snd (executeHandler w b) = AgentExecuted r"
  shows "\<exists>q. b = Inr q \<and> snd (agent_executeHTTPRequest w q) = Inr r"
proof (cases b)
  case (Inl err)
  with assms show ?thesis by (simp add: executeHandler_def)
next
  case (Inr q)
  with assms show ?thesis
    by (auto simp: executeHandler_def split: if_splits prod.splits sum.splits)
qed

lemma firstValues_hd:
  "firstValues H key = (case H key of None \<Rightarrow> None | Some vs \<Rightarrow> if vs = [] then None else Some (hd vs))"
  by (simp add: firstValues_def split: option.splits list.splits)

lemma allowedMethods_upper: "allowedMethods m \<Longrightarrow> m \<noteq> ''''"
  by (auto simp: allowedMethods_def)

text \<open>Where the headers of a reply come from.\<close>

lemma executeHTTPRequest_headers:
  assumes "snd (executeHTTPRequest cfg w m u h b) = Inr r"
  shows "\<exists>resp. snd (do_hops cfg w u 0) = Inr resp \<and> er_Headers r = firstValues (resp_Header resp)"
proof -
  from executeHTTPRequest_cases[of w m u b cfg h] show ?thesis
  proof (elim disjE exE conjE)
    fix err
    assume "executeHTTPRequest cfg w m u h b = ([], Inl (CreateRequestFailed err))"
    with assms show ?thesis by simp
  next
    fix req
    assume res: "snd (executeHTTPRequest cfg w m u h b)
            = (case snd (do_hops cfg w u 0) of
                 Inl err \<Rightarrow> Inl (RequestFailed err)
               | Inr resp \<Rightarrow>
                   (case readLimited (MaxResponseSize cfg) resp of
                      Inl err \<Rightarrow> Inl (ReadFailed err)
                    | Inr responseBody \<Rightarrow>
                        Inr \<lparr>er_Status = resp_StatusCode resp,
                             er_Headers = firstValues (resp_Header resp),
                             er_Body = responseBody,
                             er_DurationMs = 0\<rparr>))"
    show ?thesis
    proof (cases "snd (do_hops cfg w u 0)")
      case (Inl err)
      with res assms show ?thesis by simp
    next
      case (Inr resp)
      with res assms show ?thesis
        by (cases "readLimited (MaxResponseSize cfg) resp") auto
    qed
  qed
qed

lemma agent_executeHTTPRequest_headers:
  assumes "snd (agent_executeHTTPRequest w q) = Inr r"
  shows "\<exists>resp. snd (agent_do_hops w (a_URL q) 0) = Inr resp \<and> ar_Headers r = resp_Header resp"
proof -
  from agent_executeHTTPRequest_cases[of w q] show ?thesis
  proof (elim disjE exE conjE)
    fix err
    assume "agent_executeHTTPRequest w q = ([], Inl (CreateRequestFailed err))"
    with assms show ?thesis by simp
  next
    fix req
    assume res: "snd (agent_executeHTTPRequest w q)
            = (case snd (agent_do_hops w (a_URL q) 0) of
                 Inl err \<Rightarrow> Inl (RequestFailed err)
               | Inr resp \<Rightarrow>
                   (case readLimited agent_MaxResponseSize resp of
                      Inl err \<Rightarrow> Inl (ReadFailed err)
                    | Inr responseBody \<Rightarrow>
                        Inr \<lparr>ar_Status = resp_StatusCode resp,
                             ar_StatusText = resp_Status resp,
                             ar_Headers = resp_Header resp,
                             ar_Body = responseBody,
                             ar_Duration = w_elapsed w\<rparr>))"
    show ?thesis
    proof (cases "snd (agent_do_hops w (a_URL q) 0)")
      case (Inl err)
      with res assms show ?thesis by simp
    next
      case (Inr resp)
      with res assms show ?thesis
        by (cases "readLimited agent_MaxResponseSize resp") auto
    qed
  qed
qed

lemma validateAndExecute_headers:
  assumes "snd (validateAndExecute cfg w m u h b) = Executed r"
  shows "\<exists>resp. snd (do_hops cfg w u 0) = Inr resp \<and> er_Headers r = firstValues (resp_Header resp)"
proof -
  from validateAndExecute_cases[of cfg w m u h b] show ?thesis
  proof (elim disjE exE conjE)
    fix lk err
    assume "validateAndExecute cfg w m u h b
             = (lk @ [EvValidate u (AllowLocalhost cfg) (AllowPrivateIPs cfg) (Some err)],
                ErrorReply 403 ''ssrf_protection'' (Blocked err))"
    with assms show ?thesis by simp
  next
    fix lk
    assume res: "snd (validateAndExecute cfg w m u h b)
                 = (case snd (executeHTTPRequest cfg w m u h b) of
                      Inl err \<Rightarrow> ErrorReply 502 ''execution_error'' (Failed err)
                    | Inr response \<Rightarrow> Executed (response\<lparr>er_DurationMs := w_elapsed w\<rparr>))"
    show ?thesis
    proof (cases "snd (executeHTTPRequest cfg w m u h b)")
      case (Inl err)
      with res assms show ?thesis by simp
    next
      case (Inr response)
      with res assms have "r = response\<lparr>er_DurationMs := w_elapsed w\<rparr>" by simp
      then have "er_Headers r = er_Headers response" by simp
      with executeHTTPRequest_headers[OF Inr] show ?thesis by simp
    qed
  qed
qed

text \<open>
  A call that ends with an executed reply has run the engine on the URL chosen from the
  overrides and the row, and its one first request went to that URL.
\<close>

lemma ExecuteRequest_executed:
  assumes "snd (ExecuteRequest cfg w c) = Executed r"
  shows "\<exists>item execReq m. c_row c = Row item \<and> bindOverrides (c_content c) = Inr execReq \<and>
           item_Method item = Some m \<and>
           ExecuteRequest cfg w c
             = validateAndExecute cfg w m (chooseURL execReq item)
                 (chooseHeaders execReq item (c_storedHeaders c)) (chooseBody execReq item)"
proof -
  from assms have v: "c_idValid c"
    by (auto simp: ExecuteRequest_def split: if_splits)
  from assms v obtain item where row: "c_row c = Row item"
    by (cases "c_row c") (simp_all add: ExecuteRequest_def)
  from assms v row have ty: "item_ItemType item = ''request''"
    by (auto simp: ExecuteRequest_def split: if_splits)
  from assms v row ty obtain execReq where bo: "bindOverrides (c_content c) = Inr execReq"
    by (cases "bindOverrides (c_content c)") (simp_all add: ExecuteRequest_def)
  from assms v row ty bo obtain m where me: "item_Method item = Some m"
    by (cases "item_Method item") (simp_all add: ExecuteRequest_def)
  from assms v row ty bo me have nz: "chooseURL execReq item \<noteq> ''''"
    by (auto simp: ExecuteRequest_def Let_def split: if_splits)
  have "ExecuteRequest cfg w c
          = validateAndExecute cfg w m (chooseURL execReq item)
              (chooseHeaders execReq item (c_storedHeaders c)) (chooseBody execReq item)"
    using v row ty bo me nz by (simp add: ExecuteRequest_def Let_def)
  with row bo me show ?thesis by blast
qed

lemma validateAndExecute_executed_requests:
  assumes "snd (validateAndExecute cfg w m u h b) = Executed r"
  shows "requests (fst (validateAndExecute cfg w m u h b))
           = [(if m = '''' then ''GET'' else m, u, prepareBody m b)]"
proof -
  from validateAndExecute_cases[of cfg w m u h b] show ?thesis
  proof (elim disjE exE conjE)
    fix lk err
    assume "validateAndExecute cfg w m u h b
             = (lk @ [EvValidate u (AllowLocalhost cfg) (AllowPrivateIPs cfg) (Some err)],
                ErrorReply 403 ''ssrf_protection'' (Blocked err))"
    with assms show ?thesis by simp
  next
    fix lk
    assume lk: "list_all is_lookup lk"
      and tr: "fst (validateAndExecute cfg w m u h b)
                 = lk @ [EvValidate u (AllowLocalhost cfg) (AllowPrivateIPs cfg) None]
                      @ fst (executeHTTPRequest cfg w m u h b)"
      and res: "snd (validateAndExecute cfg w m u h b)
                 = (case snd (executeHTTPRequest cfg w m u h b) of
                      Inl err \<Rightarrow> ErrorReply 502 ''execution_error'' (Failed err)
                    | Inr response \<Rightarrow> Executed (response\<lparr>er_DurationMs := w_elapsed w\<rparr>))"
    from res assms obtain response where ok: "snd (executeHTTPRequest cfg w m u h b) = Inr response"
      by (cases "snd (executeHTTPRequest cfg w m u h b)") simp_all
    from executeHTTPRequest_cases[of w m u b cfg h] ok
    obtain req where "NewRequest w m u (prepareBody m b) = Inr req"
      by (elim disjE exE conjE) simp_all
    from executeHTTPRequest_sends[OF this, of cfg h] tr lookups_silent[of lk] lk
    show ?thesis by (simp add: requests_append)
  qed
qed

section \<open>The validator: claims C1, C3, C4, C6 and C10\<close>

text \<open>
  C1. A URL whose host resolves to a non-empty list of addresses, all of them in
  127.0.0.0/8, 10.0.0.0/8, 172.16.0.0/12, 192.168.0.0/16, 169.254.0.0/16, ::1,
  fc00::/7 or fe80::/10, is never allowed when \<open>allowPrivateIPs\<close> is false, whatever
  \<open>allowLocalhost\<close> is; when the URL gets as far as the resolver, the rejection is the
  private-range one and names the first address.
\<close>

theorem C1_listed_ranges_blocked:
  assumes "url_Parse e urlStr = Inr parsed"
    and "net_LookupIP e (Hostname parsed) = Inr ips"
    and "ips \<noteq> []"
    and "\<forall>ip \<in> set ips. in_listed_ranges ip"
  shows "snd (ValidateExecutionURL e urlStr allowLocalhost False) \<noteq> None \<and>
         (snd (ValidateExecutionURL e urlStr allowLocalhost False)
            \<in> {Some (UnsupportedScheme (Scheme parsed)), Some MissingHostname,
                Some LocalhostNotAllowed, Some (PrivateIPNotAllowed (IP_String (hd ips)))})"
proof -
  obtain ip rest where ips: "ips = ip # rest" using assms(3) by (cases ips) auto
  have "isPrivateIP ip" using assms(4) ips by (simp add: in_listed_ranges_private)
  then have "checkIPs ips False = Some (PrivateIPNotAllowed (IP_String (hd ips)))"
    by (simp add: ips)
  then show ?thesis
    using assms(1) assms(2) by (simp add: ValidateExecutionURL_def Let_def)
qed

theorem C1_listed_ranges_blocked_witness:
  "url_Parse example_env ''http://intranet.example/''
     = Inr \<lparr>Scheme = ''http'', Host = ''intranet.example''\<rparr> \<and>
   net_LookupIP example_env ''intranet.example''
     = Inr [[172, 20, 1, 1], [0xfd, 0, 0, 0, 0, 0, 0, 0, 0, 0, 0, 0, 0, 0, 0, 7]] \<and>
   in_listed_ranges [172, 20, 1, 1] \<and>
   in_listed_ranges [0xfd, 0, 0, 0, 0, 0, 0, 0, 0, 0, 0, 0, 0, 0, 0, 7] \<and>
   snd (ValidateExecutionURL example_env ''http://intranet.example/'' True False) \<noteq> None \<and>
   snd (ValidateExecutionURL example_env ''http://intranet.example/'' False False) \<noteq> None"
proof -
  let ?u = "\<lparr>Scheme = ''http'', Host = ''intranet.example''\<rparr>"
  let ?ips = "[[172, 20, 1, 1], [0xfd, 0, 0, 0, 0, 0, 0, 0, 0, 0, 0, 0, 0, 0, 0, 7]] :: IP list"
  have p: "url_Parse example_env ''http://intranet.example/'' = Inr ?u"
    by (simp add: example_env_def example_Parse_def)
  have h: "Hostname ?u = ''intranet.example''"
    by (simp add: Hostname_def splitHostPort_def validOptionalPort_def HasPrefix_def)
  have l: "net_LookupIP example_env ''intranet.example'' = Inr ?ips"
    by (simp add: example_env_def example_LookupIP_def)
  have l': "net_LookupIP example_env (Hostname ?u) = Inr ?ips"
    unfolding h by (rule l)
  have r1: "in_listed_ranges [172, 20, 1, 1]"
    by (simp add: in_listed_ranges_def listed_ranges_def cidr_member_def address_def To4_def)
  have r2: "in_listed_ranges [0xfd, 0, 0, 0, 0, 0, 0, 0, 0, 0, 0, 0, 0, 0, 0, 7]"
    by (simp add: in_listed_ranges_def listed_ranges_def cidr_member_def address_def To4_def)
  have r: "\<forall>ip \<in> set ?ips. in_listed_ranges ip"
    using r1 r2 by simp
  have ne: "?ips \<noteq> []" by simp
  show ?thesis
    using C1_listed_ranges_blocked [OF p l' ne r, of True]
          C1_listed_ranges_blocked [OF p l' ne r, of False] p l r1 r2
    by blast
qed

lemma example_intranet:
  "ValidateExecutionURL example_env ''http://intranet.example/'' True False
     = ([EvLookup ''intranet.example''], Some (PrivateIPNotAllowed ''172.20.1.1''))"
  by code_simp

text \<open>
  C3. A URL whose scheme, lower-cased, is neither \<open>http\<close> nor \<open>https\<close> is rejected
  with the unsupported-scheme error, without a DNS lookup, and the outcome is the same
  for all four settings of the two flags.
\<close>

theorem C3_scheme_blocked:
  assumes "url_Parse e urlStr = Inr parsed"
    and "ToLower (Scheme parsed) \<noteq> ''http''"
    and "ToLower (Scheme parsed) \<noteq> ''https''"
  shows "ValidateExecutionURL e urlStr allowLocalhost allowPrivateIPs
           = ([], Some (UnsupportedScheme (Scheme parsed))) \<and>
         ValidateExecutionURL e urlStr allowLocalhost allowPrivateIPs
           = ValidateExecutionURL e urlStr allowLocalhost' allowPrivateIPs'"
  using assms by (simp add: ValidateExecutionURL_def)

theorem C3_scheme_blocked_witness:
  "list_all (\<lambda>(u, s).
       url_Parse example_env u = Inr \<lparr>Scheme = s, Host = ''x''\<rparr> \<and>
       ToLower s \<noteq> ''http'' \<and> ToLower s \<noteq> ''https'' \<and>
       list_all (\<lambda>(al, ap). ValidateExecutionURL example_env u al ap
                               = ([], Some (UnsupportedScheme s)))
                [(False, False), (False, True), (True, False), (True, True)])
     [(''file://x'', ''file''), (''ftp://x'', ''ftp''), (''ws://x'', ''ws'')]"
proof -
  have p: "url_Parse example_env ''file://x'' = Inr \<lparr>Scheme = ''file'', Host = ''x''\<rparr>"
      "url_Parse example_env ''ftp://x'' = Inr \<lparr>Scheme = ''ftp'', Host = ''x''\<rparr>"
      "url_Parse example_env ''ws://x'' = Inr \<lparr>Scheme = ''ws'', Host = ''x''\<rparr>"
    by (simp_all add: example_env_def example_Parse_def)
  have s: "ToLower ''file'' = ''file''" "ToLower ''ftp'' = ''ftp''" "ToLower ''ws'' = ''ws''"
    by (simp_all add: ToLower_def lower_byte_def)
  have "ValidateExecutionURL example_env ''file://x'' al ap
          = ([], Some (UnsupportedScheme ''file''))" for al ap
    using C3_scheme_blocked [OF p(1), of al ap] by (simp add: s)
  moreover have "ValidateExecutionURL example_env ''ftp://x'' al ap
          = ([], Some (UnsupportedScheme ''ftp''))" for al ap
    using C3_scheme_blocked [OF p(2), of al ap] by (simp add: s)
  moreover have "ValidateExecutionURL example_env ''ws://x'' al ap
          = ([], Some (UnsupportedScheme ''ws''))" for al ap
    using C3_scheme_blocked [OF p(3), of al ap] by (simp add: s)
  ultimately show ?thesis using p by (simp add: s)
qed

text \<open>
  C4. When \<open>url.Parse\<close> reads \<open>http://169.254.169.254/latest/meta-data\<close> as scheme
  \<open>http\<close> and host \<open>169.254.169.254\<close>, and the resolver returns that address first
  (in its 4-byte or its 16-byte form), validation with \<open>allowPrivateIPs\<close> false fails
  with the private-range error, whose text names the address, whatever \<open>allowLocalhost\<close>
  is.
\<close>

theorem C4_metadata_blocked:
  assumes "url_Parse e ''http://169.254.169.254/latest/meta-data'' = Inr parsed"
    and "Scheme parsed = ''http''"
    and "Host parsed = ''169.254.169.254''"
    and "net_LookupIP e ''169.254.169.254'' = Inr (ip # rest)"
    and "To4 ip = Some [169, 254, 169, 254]"
  shows "ValidateExecutionURL e ''http://169.254.169.254/latest/meta-data'' allowLocalhost False
           = ([EvLookup ''169.254.169.254''], Some (PrivateIPNotAllowed ''169.254.169.254'')) \<and>
         Error (PrivateIPNotAllowed ''169.254.169.254'')
           = ''requests to private IP ranges are not allowed: 169.254.169.254''"
proof -
  have h: "Hostname parsed = ''169.254.169.254''"
    by (simp add: Hostname_def assms(3) splitHostPort_def HasPrefix_def)
  have l: "\<not> isLocalhost ''169.254.169.254''"
    by (simp add: isLocalhost_def ToLower_def lower_byte_def HasPrefix_def)
  have len: "length ip \<noteq> 0" "length ip = 4 \<or> length ip = 16"
    using assms(5) by (auto simp: To4_def split: if_splits)
  have "IsLinkLocalUnicast ip" by (simp add: IsLinkLocalUnicast_def assms(5))
  then have priv: "isPrivateIP ip" by (simp add: isPrivateIP_def)
  have str: "IP_String ip = ''169.254.169.254''"
    using len by (auto simp: IP_String_def assms(5) uitoa.simps)
  have sch: "ToLower ''http'' = ''http''" by (simp add: ToLower_def lower_byte_def)
  show ?thesis
    using assms(1)
    by (simp add: ValidateExecutionURL_def assms(2) sch h l assms(4) priv str Let_def)
qed

theorem C4_metadata_blocked_witness:
  "url_Parse example_env ''http://169.254.169.254/latest/meta-data''
     = Inr \<lparr>Scheme = ''http'', Host = ''169.254.169.254''\<rparr> \<and>
   net_LookupIP example_env ''169.254.169.254''
     = Inr [[0, 0, 0, 0, 0, 0, 0, 0, 0, 0, 0xff, 0xff, 169, 254, 169, 254]] \<and>
   To4 [0, 0, 0, 0, 0, 0, 0, 0, 0, 0, 0xff, 0xff, 169, 254, 169, 254] = Some [169, 254, 169, 254] \<and>
   ValidateExecutionURL example_env ''http://169.254.169.254/latest/meta-data'' True False
     = ([EvLookup ''169.254.169.254''], Some (PrivateIPNotAllowed ''169.254.169.254'')) \<and>
   ValidateExecutionURL example_env ''http://169.254.169.254/latest/meta-data'' False False
     = ([EvLookup ''169.254.169.254''], Some (PrivateIPNotAllowed ''169.254.169.254''))"
proof -
  let ?u = "\<lparr>Scheme = ''http'', Host = ''169.254.169.254''\<rparr>"
  have p: "url_Parse example_env ''http://169.254.169.254/latest/meta-data'' = Inr ?u"
    by (simp add: example_env_def example_Parse_def)
  have l: "net_LookupIP example_env ''169.254.169.254''
             = Inr [[0, 0, 0, 0, 0, 0, 0, 0, 0, 0, 0xff, 0xff, 169, 254, 169, 254]]"
    by (simp add: example_env_def example_LookupIP_def)
  have t: "To4 [0, 0, 0, 0, 0, 0, 0, 0, 0, 0, 0xff, 0xff, 169, 254, 169, 254]
             = Some [169, 254, 169, 254]"
    by (simp add: To4_def)
  show ?thesis
    using C4_metadata_blocked [OF p _ _ l t, of True]
          C4_metadata_blocked [OF p _ _ l t, of False] p l t
    by simp
qed

text \<open>
  What the validator does block by name. If the URL parses, its scheme is \<open>http\<close> or
  \<open>https\<close> when lower-cased, and the host name that \<open>Hostname\<close> returns (the host
  without its port and without the brackets of an IPv6 literal) is a localhost alias,
  as written or when lower-cased, then validation with \<open>allowLocalhost\<close> false fails
  with the localhost error and no DNS lookup has been made.
\<close>

lemma alias_blocked:
  assumes "url_Parse e urlStr = Inr parsed"
    and "ToLower (Scheme parsed) = ''http'' \<or> ToLower (Scheme parsed) = ''https''"
    and "localhost_alias (Hostname parsed) \<or> localhost_alias (ToLower (Hostname parsed))"
  shows "ValidateExecutionURL e urlStr False allowPrivateIPs = ([], Some LocalhostNotAllowed)"
proof -
  have a: "localhost_alias (ToLower (Hostname parsed))"
    using assms(3) alias_lower by blast
  then have l: "isLocalhost (Hostname parsed)" by (simp add: isLocalhost_alias)
  have "ToLower (Hostname parsed) \<noteq> ''''" using a by (rule alias_not_empty)
  then have n: "Hostname parsed \<noteq> ''''" by (auto simp: ToLower_def)
  show ?thesis
    using assms(1) assms(2) l n by (auto simp: ValidateExecutionURL_def Let_def)
qed

lemma alias_blocked_example:
  "ValidateExecutionURL example_env ''https://127.0.0.1:8443/'' False False
     = ([], Some LocalhostNotAllowed) \<and>
   ValidateExecutionURL example_env ''http://localhost/'' False True
     = ([], Some LocalhostNotAllowed)"
  by code_simp

lemma digits_no_colon:
  "list_all (\<lambda>b. b \<in> set ''0123456789'') port \<Longrightarrow> LastIndexByte port CHR '':'' = -1"
  by (induction port) auto

text \<open>
  C6 does not hold of the code for the alias \<open>[::]\<close>. The host of a URL such as
  \<open>http://[::]/\<close> or \<open>http://[::]:8080/\<close> is the bracketed literal, with its port if it
  has one. \<open>Hostname\<close> returns it without the port and without the brackets, as \<open>::\<close>,
  while \<open>isLocalhost\<close> compares the host name with \<open>[::]\<close>, brackets included: the
  comparison fails. The resolver answers the literal \<open>::\<close> with the unspecified
  address, sixteen zero bytes, which \<open>isPrivateIP\<close> does not classify. So whatever the
  two flags, and in particular with \<open>allowLocalhost\<close> false, validation makes a DNS
  lookup and allows the URL, where C6 requires the localhost error before any lookup.
\<close>

theorem C6_bracketed_alias_allowed:
  assumes "url_Parse e urlStr = Inr parsed"
    and "ToLower (Scheme parsed) = ''http'' \<or> ToLower (Scheme parsed) = ''https''"
    and "Host parsed = ''[::]'' \<or>
         Host parsed = ''[::]:'' @ port \<and> list_all (\<lambda>b. b \<in> set ''0123456789'') port"
    and "net_LookupIP e ''::'' = Inr [[0, 0, 0, 0, 0, 0, 0, 0, 0, 0, 0, 0, 0, 0, 0, 0]]"
  shows "Hostname parsed = ''::'' \<and> \<not> isLocalhost (Hostname parsed) \<and>
         ValidateExecutionURL e urlStr allowLocalhost allowPrivateIPs = ([EvLookup ''::''], None)"
proof -
  have h: "Hostname parsed = ''::''"
    using assms(3)
  proof
    assume "Host parsed = ''[::]''"
    then show ?thesis
      by (simp add: Hostname_def splitHostPort_def validOptionalPort_def HasPrefix_def)
  next
    assume a: "Host parsed = ''[::]:'' @ port \<and> list_all (\<lambda>b. b \<in> set ''0123456789'') port"
    then have "LastIndexByte port CHR '':'' = -1" by (simp add: digits_no_colon)
    then have "LastIndexByte (Host parsed) CHR '':'' = 4" using a by simp
    then show ?thesis using a
      by (simp add: Hostname_def splitHostPort_def validOptionalPort_def HasPrefix_def)
  qed
  have l: "\<not> isLocalhost ''::''" by code_simp
  have p: "\<not> isPrivateIP [0, 0, 0, 0, 0, 0, 0, 0, 0, 0, 0, 0, 0, 0, 0, 0]" by code_simp
  show ?thesis
    using assms(1,2,4) h l p by (auto simp: ValidateExecutionURL_def Let_def)
qed

theorem C6_bracketed_alias_allowed_witness:
  "url_Parse example_env ''http://[::]/'' = Inr \<lparr>Scheme = ''http'', Host = ''[::]''\<rparr> \<and>
   localhost_alias (Host \<lparr>Scheme = ''http'', Host = ''[::]''\<rparr>) \<and>
   Hostname \<lparr>Scheme = ''http'', Host = ''[::]''\<rparr> = ''::'' \<and>
   \<not> isLocalhost ''::'' \<and>
   ValidateExecutionURL example_env ''http://[::]/'' False False = ([EvLookup ''::''], None) \<and>
   ValidateExecutionURL example_env ''http://[::]:8080/'' False False = ([EvLookup ''::''], None)"
proof -
  let ?u = "\<lparr>Scheme = ''http'', Host = ''[::]''\<rparr>"
  let ?v = "\<lparr>Scheme = ''http'', Host = ''[::]:8080''\<rparr>"
  have p: "url_Parse example_env ''http://[::]/'' = Inr ?u"
    "url_Parse example_env ''http://[::]:8080/'' = Inr ?v"
    by (simp_all add: example_env_def example_Parse_def)
  have s: "ToLower (Scheme ?u) = ''http'' \<or> ToLower (Scheme ?u) = ''https''"
    "ToLower (Scheme ?v) = ''http'' \<or> ToLower (Scheme ?v) = ''https''"
    by (simp_all add: ToLower_def lower_byte_def)
  have h: "Host ?u = ''[::]'' \<or>
           Host ?u = ''[::]:'' @ ''8080'' \<and> list_all (\<lambda>b. b \<in> set ''0123456789'') ''8080''"
    "Host ?v = ''[::]'' \<or>
     Host ?v = ''[::]:'' @ ''8080'' \<and> list_all (\<lambda>b. b \<in> set ''0123456789'') ''8080''"
    by simp_all
  have r: "net_LookupIP example_env ''::'' = Inr [[0, 0, 0, 0, 0, 0, 0, 0, 0, 0, 0, 0, 0, 0, 0, 0]]"
    by (simp add: example_env_def example_LookupIP_def)
  have a: "localhost_alias (Host ?u)"
    by (simp add: localhost_alias_def)
  note th = C6_bracketed_alias_allowed [OF p(1) s(1) h(1) r, of False False]
  note th' = C6_bracketed_alias_allowed [OF p(2) s(2) h(2) r, of False False]
  from th have n: "\<not> isLocalhost ''::''" by (elim conjE) simp
  from th[THEN conjunct1] th[THEN conjunct2, THEN conjunct2]
       th'[THEN conjunct2, THEN conjunct2] n p(1) a
  show ?thesis by (simp only: simp_thms)
qed

text \<open>
  C10. With \<open>allowLocalhost\<close> true and \<open>allowPrivateIPs\<close> false, a URL whose host
  resolves to a list holding a loopback address, or any other address that
  \<open>isPrivateIP\<close> classifies as private, is never allowed; and whatever the flags, such
  a URL is allowed only when \<open>allowPrivateIPs\<close> is true.
\<close>

theorem C10_localhost_needs_private:
  assumes "url_Parse e urlStr = Inr parsed"
    and "net_LookupIP e (Hostname parsed) = Inr ips"
    and "list_ex (\<lambda>ip. IsLoopback ip \<or> isPrivateIP ip) ips"
  shows "snd (ValidateExecutionURL e urlStr True False) \<noteq> None \<and>
         (snd (ValidateExecutionURL e urlStr allowLocalhost allowPrivateIPs) = None
            \<longrightarrow> allowPrivateIPs)"
proof -
  have "IsLoopback ip \<Longrightarrow> isPrivateIP ip" for ip by (simp add: isPrivateIP_def)
  then have "list_ex isPrivateIP ips" using assms(3) by (auto simp: list_ex_iff)
  then have c: "checkIPs ips False \<noteq> None" by (rule checkIPs_private)
  have "snd (ValidateExecutionURL e urlStr al False) \<noteq> None" for al
    using assms(1) assms(2) c by (auto simp: ValidateExecutionURL_def Let_def)
  then show ?thesis by (cases allowPrivateIPs) auto
qed

theorem C10_localhost_needs_private_witness:
  "url_Parse example_env ''http://localhost/'' = Inr \<lparr>Scheme = ''http'', Host = ''localhost''\<rparr> \<and>
   net_LookupIP example_env ''localhost''
     = Inr [[127, 0, 0, 1], [0, 0, 0, 0, 0, 0, 0, 0, 0, 0, 0, 0, 0, 0, 0, 1]] \<and>
   IsLoopback [127, 0, 0, 1] \<and>
   snd (ValidateExecutionURL example_env ''http://localhost/'' True False)
     = Some (PrivateIPNotAllowed ''127.0.0.1'') \<and>
   snd (ValidateExecutionURL example_env ''http://localhost/'' True True) = None"
proof -
  let ?u = "\<lparr>Scheme = ''http'', Host = ''localhost''\<rparr>"
  let ?ips = "[[127, 0, 0, 1], [0, 0, 0, 0, 0, 0, 0, 0, 0, 0, 0, 0, 0, 0, 0, 1]] :: IP list"
  have p: "url_Parse example_env ''http://localhost/'' = Inr ?u"
    by (simp add: example_env_def example_Parse_def)
  have h: "Hostname ?u = ''localhost''"
    by (simp add: Hostname_def splitHostPort_def validOptionalPort_def HasPrefix_def)
  have l: "net_LookupIP example_env ''localhost'' = Inr ?ips"
    by (simp add: example_env_def example_LookupIP_def)
  have l': "net_LookupIP example_env (Hostname ?u) = Inr ?ips"
    unfolding h by (rule l)
  have lo: "IsLoopback [127, 0, 0, 1]"
    by (simp add: IsLoopback_def To4_def)
  have ex: "list_ex (\<lambda>ip. IsLoopback ip \<or> isPrivateIP ip) ?ips"
    using lo by simp
  have s: "ToLower ''http'' = ''http''" by (simp add: ToLower_def lower_byte_def)
  have str: "IP_String [127, 0, 0, 1] = ''127.0.0.1''"
    by (simp add: IP_String_def To4_def uitoa.simps)
  have priv: "isPrivateIP [127, 0, 0, 1]" using lo by (simp add: isPrivateIP_def)
  have v: "ValidateExecutionURL example_env ''http://localhost/'' True ap
             = ([EvLookup ''localhost''], checkIPs ?ips ap)" for ap
    by (simp add: ValidateExecutionURL_def p s h l Let_def)
  have "snd (ValidateExecutionURL example_env ''http://localhost/'' True False)
          = Some (PrivateIPNotAllowed ''127.0.0.1'')"
    using C10_localhost_needs_private [OF p l' ex, of True False]
    by (simp add: v priv str)
  moreover have "snd (ValidateExecutionURL example_env ''http://localhost/'' True True) = None"
    by (simp add: v checkIPs_allowed)
  ultimately show ?thesis using p l lo by simp
qed

section \<open>The engines: claims C2, C5, C7, C8 and C9\<close>

text \<open>The example call of the public service and of the agent, evaluated.\<close>

lemma example_prepareBody:
  "prepareBody ''POST'' ''name=a'' = Some ''name=a''"
  "prepareBody ''post'' ''name=a'' = Some ''name=a''"
  "prepareBody ''GET'' ''name=a'' = None"
  "prepareBody ''OPTIONS'' ''name=a'' = None"
  by (simp_all add: prepareBody_def ToUpper_def upper_byte_def)

lemma example_allowed:
  "ValidateExecutionURL (env_at example_world 0) ''http://example.com/items''
     (AllowLocalhost example_cfg) (AllowPrivateIPs example_cfg)
     = ([EvLookup ''example.com''], None)"
  by code_simp

lemma example_NewRequest:
  "NewRequest example_world ''POST'' ''http://example.com/items'' (Some ''name=a'')
     = Inr \<lparr>req_Method = ''POST'', req_URL = ''http://example.com/items'',
            req_Body = Some ''name=a''\<rparr>"
  "NewRequest example_world ''post'' ''http://example.com/items'' (Some ''name=a'')
     = Inr \<lparr>req_Method = ''post'', req_URL = ''http://example.com/items'',
            req_Body = Some ''name=a''\<rparr>"
  "NewRequest example_world ''GET'' ''http://example.com/items'' None
     = Inr \<lparr>req_Method = ''GET'', req_URL = ''http://example.com/items'', req_Body = None\<rparr>"
  "NewRequest example_world ''OPTIONS'' ''http://example.com/items'' None
     = Inr \<lparr>req_Method = ''OPTIONS'', req_URL = ''http://example.com/items'', req_Body = None\<rparr>"
  by code_simp+

lemma example_final:
  "do_hops example_cfg example_world ''http://example.com/items'' 0 = ([], Inr created)"
  "agent_do_hops example_world ''http://example.com/items'' 0 = ([], Inr created)"
  by (simp_all add: do_hops.simps agent_do_hops.simps example_world_def example_roundTrip_def)

lemma example_read:
  "readLimited (MaxResponseSize example_cfg) created = Inr ''id=1''"
  "readLimited agent_MaxResponseSize created = Inr ''id=1''"
  by (simp_all add: readLimited_def created_def example_cfg_def agent_MaxResponseSize_def)

lemma example_call_runs:
  "ExecuteRequest example_cfg example_world (example_call None)
     = validateAndExecute example_cfg example_world
         ''POST'' ''http://example.com/items'' Map.empty ''name=a''"
  by (simp add: ExecuteRequest_def example_call_def example_item_def bindOverrides_def
        chooseURL_def chooseHeaders_def chooseBody_def)

lemma example_executed:
  "ExecuteRequest example_cfg example_world (example_call None)
     = ([EvLookup ''example.com'',
         EvValidate ''http://example.com/items'' False False None,
         EvRequest ''POST'' ''http://example.com/items'' (Some ''name=a'')],
        Executed \<lparr>er_Status = 201, er_Headers = firstValues (resp_Header created),
                  er_Body = ''id=1'', er_DurationMs = 12\<rparr>)"
proof -
  have f: "AllowLocalhost example_cfg = False" "AllowPrivateIPs example_cfg = False"
    "w_elapsed example_world = 12" "resp_StatusCode created = 201"
    by (simp_all add: example_cfg_def example_world_def created_def)
  show ?thesis
    unfolding example_call_runs validateAndExecute_def executeHTTPRequest_def Let_def
    by (simp add: example_allowed[unfolded f] example_prepareBody example_NewRequest
          example_final example_read[unfolded f] f)
qed

lemma example_agent_executed:
  "executeHandler example_world
     (Inr \<lparr>a_Method = ''post'', a_URL = ''http://example.com/items'',
           a_Headers = Map.empty, a_Body = ''name=a''\<rparr>)
     = ([EvRequest ''post'' ''http://example.com/items'' (Some ''name=a'')],
        AgentExecuted \<lparr>ar_Status = 201, ar_StatusText = ''201 Created'',
                       ar_Headers = resp_Header created, ar_Body = ''id=1'',
                       ar_Duration = 12\<rparr>)"
proof -
  have f: "w_elapsed example_world = 12" "resp_StatusCode created = 201"
    "resp_Status created = ''201 Created''"
    by (simp_all add: example_world_def created_def)
  show ?thesis
    unfolding executeHandler_def agent_executeHTTPRequest_def Let_def
    by (simp add: example_prepareBody example_NewRequest example_final example_read f)
qed




text \<open>
  C5, as the claim states it, fails: \<open>len(via)\<close> counts the requests already made, the
  first one included, so with \<open>MaxRedirects = 5\<close> the check stops the fifth redirect.
  Against six redirects in a row the engine follows four of them, not five.
\<close>

theorem C5_counterexample:
  "MaxRedirects example_cfg = 5 \<and>
   followed (fst (executeHTTPRequest example_cfg example_world
                    ''GET'' ''http://example.com/r0'' Map.empty ''''))
     = [''http://example.com/r1'', ''http://example.com/r2'',
        ''http://example.com/r3'', ''http://example.com/r4''] \<and>
   length (followed (fst (executeHTTPRequest example_cfg example_world
                            ''GET'' ''http://example.com/r0'' Map.empty ''''))) \<noteq> 5 \<and>
   error_of (snd (executeHTTPRequest example_cfg example_world
                    ''GET'' ''http://example.com/r0'' Map.empty ''''))
     = Some (RequestFailed (CheckRedirectFailed (StoppedAfter 5)))"
  by code_simp

text \<open>
  C5, amended. With \<open>MaxRedirects = 5\<close>, against a target that answers the first five
  requests of a call with redirects (each target allowed by the validator), the public
  engine fails with the error \<open>stopped after 5 redirects\<close> after sending exactly five
  requests: the first one and four redirects followed. The target of the fifth redirect
  is neither requested nor handed to the validator: the validator has seen the first
  four targets only. The agent's engine, whose limit is the constant 5, sends the same
  five requests and fails with the same error.
\<close>

theorem C5_redirect_limit:
  assumes "MaxRedirects cfg = 5"
    and "NewRequest w m u0 (prepareBody m b) = Inr req"
    and "w_roundTrip w 0 u0 = Redirect r0 u1"
    and "w_roundTrip w 1 u1 = Redirect r1 u2"
    and "w_roundTrip w 2 u2 = Redirect r2 u3"
    and "w_roundTrip w 3 u3 = Redirect r3 u4"
    and "w_roundTrip w 4 u4 = Redirect r4 u5"
  shows "(snd (ValidateExecutionURL (env_at w 1) u1 (AllowLocalhost cfg) (AllowPrivateIPs cfg)) = None \<and>
          snd (ValidateExecutionURL (env_at w 2) u2 (AllowLocalhost cfg) (AllowPrivateIPs cfg)) = None \<and>
          snd (ValidateExecutionURL (env_at w 3) u3 (AllowLocalhost cfg) (AllowPrivateIPs cfg)) = None \<and>
          snd (ValidateExecutionURL (env_at w 4) u4 (AllowLocalhost cfg) (AllowPrivateIPs cfg)) = None
          \<longrightarrow>
            snd (executeHTTPRequest cfg w m u0 h b)
              = Inl (RequestFailed (CheckRedirectFailed (StoppedAfter 5))) \<and>
            sent (fst (executeHTTPRequest cfg w m u0 h b)) = [u0, u1, u2, u3, u4] \<and>
            followed (fst (executeHTTPRequest cfg w m u0 h b)) = [u1, u2, u3, u4] \<and>
            validated (fst (executeHTTPRequest cfg w m u0 h b)) = [u1, u2, u3, u4]) \<and>
         snd (agent_executeHTTPRequest w \<lparr>a_Method = m, a_URL = u0, a_Headers = h, a_Body = b\<rparr>)
           = Inl (RequestFailed (CheckRedirectFailed (StoppedAfter 5))) \<and>
         sent (fst (agent_executeHTTPRequest w
                      \<lparr>a_Method = m, a_URL = u0, a_Headers = h, a_Body = b\<rparr>))
           = [u0, u1, u2, u3, u4] \<and>
         cr_Error (StoppedAfter 5) = ''stopped after 5 redirects''"
proof -
  let ?al = "AllowLocalhost cfg" and ?ap = "AllowPrivateIPs cfg"
  let ?q = "\<lparr>a_Method = m, a_URL = u0, a_Headers = h, a_Body = b\<rparr>"
  have public: "snd (executeHTTPRequest cfg w m u0 h b)
              = Inl (RequestFailed (CheckRedirectFailed (StoppedAfter 5))) \<and>
            sent (fst (executeHTTPRequest cfg w m u0 h b)) = [u0, u1, u2, u3, u4] \<and>
            followed (fst (executeHTTPRequest cfg w m u0 h b)) = [u1, u2, u3, u4] \<and>
            validated (fst (executeHTTPRequest cfg w m u0 h b)) = [u1, u2, u3, u4]"
    if v1: "snd (ValidateExecutionURL (env_at w 1) u1 ?al ?ap) = None"
      and v2: "snd (ValidateExecutionURL (env_at w 2) u2 ?al ?ap) = None"
      and v3: "snd (ValidateExecutionURL (env_at w 3) u3 ?al ?ap) = None"
      and v4: "snd (ValidateExecutionURL (env_at w 4) u4 ?al ?ap) = None"
  proof -
    have s4: "do_hops cfg w u4 4 = ([], Inl (CheckRedirectFailed (StoppedAfter 5)))"
      using do_hops_stop[OF assms(7), of cfg] assms(1) by simp
    note s3 = do_hops_step[OF assms(6), of cfg, unfolded assms(1)]
    note s2 = do_hops_step[OF assms(5), of cfg, unfolded assms(1)]
    note s1 = do_hops_step[OF assms(4), of cfg, unfolded assms(1)]
    note s0 = do_hops_step[OF assms(3), of cfg, unfolded assms(1)]
    have d: "sent (fst (do_hops cfg w u0 0)) = [u1, u2, u3, u4] \<and>
             followed (fst (do_hops cfg w u0 0)) = [u1, u2, u3, u4] \<and>
             validated (fst (do_hops cfg w u0 0)) = [u1, u2, u3, u4] \<and>
             snd (do_hops cfg w u0 0) = Inl (CheckRedirectFailed (StoppedAfter 5))"
      using s0 s1 s2 s3 s4 v1 v2 v3 v4
      by (simp add: eval_nat_numeral)
    from executeHTTPRequest_cases[of w m u0 b cfg h] assms(2) d show ?thesis
      by (elim disjE exE conjE) simp_all
  qed
  have a4: "agent_do_hops w u4 4 = ([], Inl (CheckRedirectFailed (StoppedAfter 5)))"
    using agent_do_hops_stop[OF assms(7)] by (simp add: agent_MaxRedirects_def)
  note a3 = agent_do_hops_step[OF assms(6), unfolded agent_MaxRedirects_def]
  note a2 = agent_do_hops_step[OF assms(5), unfolded agent_MaxRedirects_def]
  note a1 = agent_do_hops_step[OF assms(4), unfolded agent_MaxRedirects_def]
  note a0 = agent_do_hops_step[OF assms(3), unfolded agent_MaxRedirects_def]
  have ad: "fst (agent_do_hops w u0 0) = [EvFollow u1, EvFollow u2, EvFollow u3, EvFollow u4] \<and>
            snd (agent_do_hops w u0 0) = Inl (CheckRedirectFailed (StoppedAfter 5))"
    using a0 a1 a2 a3 a4 by (simp add: eval_nat_numeral)
  have agent: "snd (agent_executeHTTPRequest w ?q)
                 = Inl (RequestFailed (CheckRedirectFailed (StoppedAfter 5))) \<and>
               sent (fst (agent_executeHTTPRequest w ?q)) = [u0, u1, u2, u3, u4]"
    using agent_executeHTTPRequest_cases[of w ?q] assms(2) ad
    by (elim disjE exE conjE) simp_all
  have msg: "cr_Error (StoppedAfter 5) = ''stopped after 5 redirects''"
    by (simp add: itoa_def uitoa.simps)
  from public agent msg show ?thesis by blast
qed

theorem C5_redirect_limit_witness:
  "MaxRedirects example_cfg = 5 \<and>
   w_roundTrip example_world 0 ''http://example.com/r0'' = Redirect found ''http://example.com/r1'' \<and>
   w_roundTrip example_world 4 ''http://example.com/r4'' = Redirect found ''http://example.com/r5'' \<and>
   w_roundTrip example_world 5 ''http://example.com/r5'' = Redirect found ''http://example.com/r6'' \<and>
   snd (executeHTTPRequest example_cfg example_world ''GET'' ''http://example.com/r0'' Map.empty '''')
     = Inl (RequestFailed (CheckRedirectFailed (StoppedAfter 5))) \<and>
   sent (fst (executeHTTPRequest example_cfg example_world
                ''GET'' ''http://example.com/r0'' Map.empty ''''))
     = [''http://example.com/r0'', ''http://example.com/r1'', ''http://example.com/r2'',
        ''http://example.com/r3'', ''http://example.com/r4''] \<and>
   validated (fst (executeHTTPRequest example_cfg example_world
                     ''GET'' ''http://example.com/r0'' Map.empty ''''))
     = [''http://example.com/r1'', ''http://example.com/r2'',
        ''http://example.com/r3'', ''http://example.com/r4''] \<and>
   sent (fst (agent_executeHTTPRequest example_world
                \<lparr>a_Method = ''GET'', a_URL = ''http://example.com/r0'',
                 a_Headers = Map.empty, a_Body = ''''\<rparr>))
     = [''http://example.com/r0'', ''http://example.com/r1'', ''http://example.com/r2'',
        ''http://example.com/r3'', ''http://example.com/r4'']"
proof -
  let ?al = "AllowLocalhost example_cfg" and ?ap = "AllowPrivateIPs example_cfg"
  have c: "MaxRedirects example_cfg = 5" by (simp add: example_cfg_def)
  have n: "NewRequest example_world ''GET'' ''http://example.com/r0'' (prepareBody ''GET'' '''')
             = Inr \<lparr>req_Method = ''GET'', req_URL = ''http://example.com/r0'', req_Body = None\<rparr>"
    by code_simp
  have t0: "w_roundTrip example_world 0 ''http://example.com/r0'' = Redirect found ''http://example.com/r1''"
    and t1: "w_roundTrip example_world 1 ''http://example.com/r1'' = Redirect found ''http://example.com/r2''"
    and t2: "w_roundTrip example_world 2 ''http://example.com/r2'' = Redirect found ''http://example.com/r3''"
    and t3: "w_roundTrip example_world 3 ''http://example.com/r3'' = Redirect found ''http://example.com/r4''"
    and t4: "w_roundTrip example_world 4 ''http://example.com/r4'' = Redirect found ''http://example.com/r5''"
    and t5: "w_roundTrip example_world 5 ''http://example.com/r5'' = Redirect found ''http://example.com/r6''"
    by (simp_all add: example_world_def example_roundTrip_def)
  have v1: "snd (ValidateExecutionURL (env_at example_world 1) ''http://example.com/r1'' ?al ?ap) = None"
    by code_simp
  have v2: "snd (ValidateExecutionURL (env_at example_world 2) ''http://example.com/r2'' ?al ?ap) = None"
    by code_simp
  have v3: "snd (ValidateExecutionURL (env_at example_world 3) ''http://example.com/r3'' ?al ?ap) = None"
    by code_simp
  have v4: "snd (ValidateExecutionURL (env_at example_world 4) ''http://example.com/r4'' ?al ?ap) = None"
    by code_simp
  note th = C5_redirect_limit[OF c n t0 t1 t2 t3 t4, of Map.empty]
  note pub = th[THEN conjunct1, THEN mp, OF conjI[OF v1 conjI[OF v2 conjI[OF v3 v4]]]]
  note agent = th[THEN conjunct2]
  from pub agent c t0 t4 t5 show ?thesis by (simp only: simp_thms)
qed

text \<open>
  C7, as the claim states it, fails: the agent hands any non-empty method to its
  engine, which passes it to \<open>http.NewRequest\<close> unchecked. A HEAD request is executed.
\<close>

theorem C7_counterexample:
  "requests (fst (executeHandler example_world
                    (Inr \<lparr>a_Method = ''HEAD'', a_URL = ''http://localhost/'',
                          a_Headers = Map.empty, a_Body = ''''\<rparr>)))
     = [(''HEAD'', ''http://localhost/'', None)] \<and>
   \<not> allowedMethods ''HEAD''"
proof -
  let ?q = "\<lparr>a_Method = ''HEAD'', a_URL = ''http://localhost/'',
             a_Headers = Map.empty, a_Body = ''''\<rparr>"
  have pb: "prepareBody ''HEAD'' '''' = None"
    by (simp add: prepareBody_def)
  have n: "NewRequest example_world ''HEAD'' ''http://localhost/'' None
             = Inr \<lparr>req_Method = ''HEAD'', req_URL = ''http://localhost/'', req_Body = None\<rparr>"
    by code_simp
  have "requests (fst (agent_executeHTTPRequest example_world ?q))
          = [(''HEAD'', ''http://localhost/'', None)]"
    using agent_executeHTTPRequest_sends[of example_world ?q] n by (simp add: pb)
  moreover have "fst (executeHandler example_world (Inr ?q))
                   = fst (agent_executeHTTPRequest example_world ?q)"
    using executeHandler_run[of ?q example_world] by simp
  moreover have "\<not> allowedMethods ''HEAD''"
    by (simp add: allowedMethods_def)
  ultimately show ?thesis by simp
qed

text \<open>
  C7, amended. The store accepts a request item through \<open>CreateItem\<close> or \<open>UpdateItem\<close>
  only with a method that is exactly one of GET, POST, PUT, PATCH, DELETE. The public
  service hands its engine the stored method of the item and nothing else (a call
  cannot override the method): the method of every first request sent is the stored
  one, so it is one of the five whenever the row satisfies the table's constraint.
  The agent checks only that method and URL are present: a body that does not decode,
  an empty method or an empty URL is answered with a bad-request error and nothing is
  sent; otherwise any method that is a token leaves in the request as it came.
\<close>

theorem C7_method_sources:
  "(CreateItem_check ''request'' m = None \<longrightarrow> allowedMethods m) \<and>
   (UpdateItem_check (Some m) = None \<longrightarrow> allowedMethods m) \<and>
   (\<forall>x \<in> set (requests (fst (ExecuteRequest cfg w c))).
      \<exists>item stored. c_row c = Row item \<and> item_Method item = Some stored \<and>
        fst x = (if stored = '''' then ''GET'' else stored) \<and>
        (method_CHECK (item_Method item) \<longrightarrow> fst x = stored \<and> allowedMethods (fst x))) \<and>
   (a_Method q \<noteq> '''' \<and> a_URL q \<noteq> '''' \<and> validMethod (a_Method q) \<and>
    (\<exists>parsed. w_Parse w (a_URL q) = Inr parsed) \<longrightarrow>
      requests (fst (executeHandler w (Inr q)))
        = [(a_Method q, a_URL q, prepareBody (a_Method q) (a_Body q))]) \<and>
   (a_Method q = '''' \<or> a_URL q = '''' \<longrightarrow>
      executeHandler w (Inr q) = ([], AgentBadRequest)) \<and>
   executeHandler w (Inl err) = ([], AgentBadRequest) \<and>
   (\<forall>x \<in> set (requests (fst (executeHandler w body))).
      \<exists>req. body = Inr req \<and> a_Method req \<noteq> '''' \<and> a_URL req \<noteq> '''' \<and>
        x = (a_Method req, a_URL req, prepareBody (a_Method req) (a_Body req)))"
proof -
  have create: "CreateItem_check ''request'' m = None \<longrightarrow> allowedMethods m"
    by (simp add: CreateItem_check_def split: if_splits)
  have update: "UpdateItem_check (Some m) = None \<longrightarrow> allowedMethods m"
    by (simp add: UpdateItem_check_def split: if_splits)
  have public: "\<forall>x \<in> set (requests (fst (ExecuteRequest cfg w c))).
      \<exists>item stored. c_row c = Row item \<and> item_Method item = Some stored \<and>
        fst x = (if stored = '''' then ''GET'' else stored) \<and>
        (method_CHECK (item_Method item) \<longrightarrow> fst x = stored \<and> allowedMethods (fst x))"
  proof
    fix x
    assume x: "x \<in> set (requests (fst (ExecuteRequest cfg w c)))"
    from ExecuteRequest_cases[of cfg w c] show
      "\<exists>item stored. c_row c = Row item \<and> item_Method item = Some stored \<and>
        fst x = (if stored = '''' then ''GET'' else stored) \<and>
        (method_CHECK (item_Method item) \<longrightarrow> fst x = stored \<and> allowedMethods (fst x))"
    proof (elim disjE exE conjE)
      assume "fst (ExecuteRequest cfg w c) = []"
      with x show ?thesis by simp
    next
      fix item stored u h b
      assume row: "c_row c = Row item" and st: "item_Method item = Some stored"
        and e: "ExecuteRequest cfg w c = validateAndExecute cfg w stored u h b"
      from x e validateAndExecute_requests[of cfg w stored u h b]
      have fx: "fst x = (if stored = '''' then ''GET'' else stored)" by auto
      have "method_CHECK (item_Method item) \<longrightarrow> fst x = stored \<and> allowedMethods (fst x)"
        using fx st allowedMethods_upper[of stored] by (auto simp: method_CHECK_def)
      with row st fx show ?thesis by blast
    qed
  qed
  have agent: "a_Method q \<noteq> '''' \<and> a_URL q \<noteq> '''' \<and> validMethod (a_Method q) \<and>
    (\<exists>parsed. w_Parse w (a_URL q) = Inr parsed) \<longrightarrow>
      requests (fst (executeHandler w (Inr q)))
        = [(a_Method q, a_URL q, prepareBody (a_Method q) (a_Body q))]"
  proof (intro impI, elim conjE exE)
    fix parsed
    assume m: "a_Method q \<noteq> ''''" and u: "a_URL q \<noteq> ''''" and v: "validMethod (a_Method q)"
      and p: "w_Parse w (a_URL q) = Inr parsed"
    have "NewRequest w (a_Method q) (a_URL q) (prepareBody (a_Method q) (a_Body q))
            = Inr \<lparr>req_Method = a_Method q, req_URL = a_URL q,
                   req_Body = prepareBody (a_Method q) (a_Body q)\<rparr>"
      using m v p by (simp add: NewRequest_def Let_def)
    from agent_executeHTTPRequest_sends[OF this] executeHandler_run[OF m u, of w] m
    show "requests (fst (executeHandler w (Inr q)))
            = [(a_Method q, a_URL q, prepareBody (a_Method q) (a_Body q))]"
      by simp
  qed
  have refused: "a_Method q = '''' \<or> a_URL q = '''' \<longrightarrow>
      executeHandler w (Inr q) = ([], AgentBadRequest)"
    by (simp add: executeHandler_def)
  have undecoded: "executeHandler w (Inl err) = ([], AgentBadRequest)"
    by (simp add: executeHandler_def)
  have present: "\<forall>x \<in> set (requests (fst (executeHandler w body))).
      \<exists>req. body = Inr req \<and> a_Method req \<noteq> '''' \<and> a_URL req \<noteq> '''' \<and>
        x = (a_Method req, a_URL req, prepareBody (a_Method req) (a_Body req))"
  proof
    fix x
    assume x: "x \<in> set (requests (fst (executeHandler w body)))"
    show "\<exists>req. body = Inr req \<and> a_Method req \<noteq> '''' \<and> a_URL req \<noteq> '''' \<and>
            x = (a_Method req, a_URL req, prepareBody (a_Method req) (a_Body req))"
    proof (cases body)
      case (Inl e)
      with x show ?thesis by (simp add: executeHandler_def)
    next
      case (Inr req)
      show ?thesis
      proof (cases "a_Method req = '''' \<or> a_URL req = ''''")
        case True
        with x Inr show ?thesis by (simp add: executeHandler_def)
      next
        case False
        then have m: "a_Method req \<noteq> ''''" and u: "a_URL req \<noteq> ''''" by simp_all
        from executeHandler_run[OF m u, of w] x Inr
        have "x \<in> set (requests (fst (agent_executeHTTPRequest w req)))" by simp
        with agent_executeHTTPRequest_requests[of w req] m
        have "x = (a_Method req, a_URL req, prepareBody (a_Method req) (a_Body req))" by auto
        with Inr m u show ?thesis by simp
      qed
    qed
  qed
  from create update public agent refused undecoded present show ?thesis by blast
qed

theorem C7_method_sources_witness:
  "CreateItem_check ''request'' ''PATCH'' = None \<and> allowedMethods ''PATCH'' \<and>
   UpdateItem_check (Some ''DELETE'') = None \<and> allowedMethods ''DELETE'' \<and>
   requests (fst (ExecuteRequest example_cfg example_world (example_call None)))
     = [(''POST'', ''http://example.com/items'', Some ''name=a'')] \<and>
   c_row (example_call None) = Row example_item \<and> item_Method example_item = Some ''POST'' \<and>
   method_CHECK (item_Method example_item) \<and> allowedMethods ''POST'' \<and>
   requests (fst (executeHandler example_world
                    (Inr \<lparr>a_Method = ''OPTIONS'', a_URL = ''http://example.com/items'',
                          a_Headers = Map.empty, a_Body = ''name=a''\<rparr>)))
     = [(''OPTIONS'', ''http://example.com/items'', None)] \<and>
   executeHandler example_world
     (Inr \<lparr>a_Method = '''', a_URL = ''http://example.com/items'',
           a_Headers = Map.empty, a_Body = ''name=a''\<rparr>)
     = ([], AgentBadRequest) \<and>
   executeHandler example_world
     (Inr \<lparr>a_Method = ''GET'', a_URL = '''', a_Headers = Map.empty, a_Body = ''''\<rparr>)
     = ([], AgentBadRequest)"
proof -
  let ?q = "\<lparr>a_Method = ''OPTIONS'', a_URL = ''http://example.com/items'',
             a_Headers = Map.empty, a_Body = ''name=a''\<rparr>"
  let ?q1 = "\<lparr>a_Method = '''', a_URL = ''http://example.com/items'',
              a_Headers = Map.empty, a_Body = ''name=a''\<rparr>"
  let ?q2 = "\<lparr>a_Method = ''GET'', a_URL = '''', a_Headers = Map.empty, a_Body = ''''\<rparr>"
  note th = C7_method_sources[of "''PATCH''" example_cfg example_world "example_call None" ?q]
  note th2 = C7_method_sources[of "''DELETE''" example_cfg example_world "example_call None" ?q]
  note th3 = C7_method_sources[of "''PATCH''" example_cfg example_world "example_call None" ?q1]
  note th4 = C7_method_sources[of "''PATCH''" example_cfg example_world "example_call None" ?q2]
  have e1: "a_Method ?q1 = '''' \<or> a_URL ?q1 = ''''" by simp
  have e2: "a_Method ?q2 = '''' \<or> a_URL ?q2 = ''''" by simp
  note b1 = th3[THEN conjunct2, THEN conjunct2, THEN conjunct2, THEN conjunct2,
                THEN conjunct1, THEN mp, OF e1]
  note b2 = th4[THEN conjunct2, THEN conjunct2, THEN conjunct2, THEN conjunct2,
                THEN conjunct1, THEN mp, OF e2]
  have c: "CreateItem_check ''request'' ''PATCH'' = None" by code_simp
  have u: "UpdateItem_check (Some ''DELETE'') = None" by code_simp
  have r: "requests (fst (ExecuteRequest example_cfg example_world (example_call None)))
             = [(''POST'', ''http://example.com/items'', Some ''name=a'')]"
    by (simp add: example_executed)
  have i: "c_row (example_call None) = Row example_item" "item_Method example_item = Some ''POST''"
    by (simp_all add: example_call_def example_item_def)
  have k: "method_CHECK (item_Method example_item)" "allowedMethods ''POST''"
    by (simp_all add: example_item_def method_CHECK_def allowedMethods_def)
  have a: "a_Method ?q \<noteq> '''' \<and> a_URL ?q \<noteq> '''' \<and> validMethod (a_Method ?q) \<and>
           (\<exists>parsed. w_Parse example_world (a_URL ?q) = Inr parsed)"
    by (simp add: validMethod_def isTokenByte_def example_world_def)
  have pb: "prepareBody ''OPTIONS'' ''name=a'' = None"
    by (rule example_prepareBody)
  from th[THEN conjunct2, THEN conjunct2, THEN conjunct2, THEN conjunct1, THEN mp, OF a]
  have ag: "requests (fst (executeHandler example_world (Inr ?q)))
              = [(''OPTIONS'', ''http://example.com/items'', None)]"
    by (simp add: pb)
  from th[THEN conjunct1, THEN mp, OF c]
       th2[THEN conjunct2, THEN conjunct1, THEN mp, OF u] c u r i k ag b1 b2
  show ?thesis by (simp only: simp_thms)
qed

text \<open>
  C8, as the claim states it, fails on the public service: its reply maps a header
  name to one string, the first of the header's values. Of two \<open>Set-Cookie\<close> values
  the caller sees one.
\<close>

theorem C8_counterexample:
  "resp_Header created ''Set-Cookie'' = Some [''a=1'', ''b=2''] \<and>
   snd (do_hops example_cfg example_world ''http://example.com/items'' 0) = Inr created \<and>
   reply_header (snd (ExecuteRequest example_cfg example_world (example_call None))) ''Set-Cookie''
     = Some ''a=1''"
  by (simp add: example_executed example_final reply_header_def firstValues_def created_def)

text \<open>
  C8, amended. The reply of the agent's \<open>/execute\<close> endpoint maps each header name of
  the final response to the URL of the request to the list of all its values, in order.
  The reply of the public service's execute endpoint maps each header name that has a
  value to the first of its values (a mapping from string to string); the response is
  the final one of the call to the URL the handler chose, the override of the call if
  it has one and the URL of the row otherwise, which is the URL its request went to.
\<close>

theorem C8_response_headers:
  "(\<forall>r. snd (executeHandler w body) = AgentExecuted r \<longrightarrow>
      (\<exists>q resp. body = Inr q \<and> snd (agent_do_hops w (a_URL q) 0) = Inr resp \<and>
         ar_Headers r = resp_Header resp)) \<and>
   (\<forall>r. snd (ExecuteRequest cfg w c) = Executed r \<longrightarrow>
      (\<exists>item execReq resp.
         c_row c = Row item \<and> bindOverrides (c_content c) = Inr execReq \<and>
         map (\<lambda>x. fst (snd x)) (requests (fst (ExecuteRequest cfg w c)))
           = [chooseURL execReq item] \<and>
         snd (do_hops cfg w (chooseURL execReq item) 0) = Inr resp \<and>
         (\<forall>key. er_Headers r key
                  = (case resp_Header resp key of
                       None \<Rightarrow> None
                     | Some vs \<Rightarrow> if vs = [] then None else Some (hd vs)))))"
proof (intro conjI allI impI)
  fix r
  assume "snd (executeHandler w body) = AgentExecuted r"
  from executeHandler_executed[OF this] obtain q where
    b: "body = Inr q" and "snd (agent_executeHTTPRequest w q) = Inr r"
    by blast
  from agent_executeHTTPRequest_headers[OF this(2)] b
  show "\<exists>q resp. body = Inr q \<and> snd (agent_do_hops w (a_URL q) 0) = Inr resp \<and>
          ar_Headers r = resp_Header resp"
    by blast
next
  fix r
  assume e: "snd (ExecuteRequest cfg w c) = Executed r"
  from ExecuteRequest_executed[OF e] obtain item execReq m where
    row: "c_row c = Row item" and bo: "bindOverrides (c_content c) = Inr execReq"
    and run: "ExecuteRequest cfg w c
                = validateAndExecute cfg w m (chooseURL execReq item)
                    (chooseHeaders execReq item (c_storedHeaders c)) (chooseBody execReq item)"
    by blast
  let ?u = "chooseURL execReq item"
  let ?h = "chooseHeaders execReq item (c_storedHeaders c)"
  let ?b = "chooseBody execReq item"
  from e run have ex: "snd (validateAndExecute cfg w m ?u ?h ?b) = Executed r" by simp
  from validateAndExecute_executed_requests[OF ex] run
  have rq: "map (\<lambda>x. fst (snd x)) (requests (fst (ExecuteRequest cfg w c))) = [?u]"
    by simp
  from validateAndExecute_headers[OF ex] obtain resp where
    hop: "snd (do_hops cfg w ?u 0) = Inr resp"
    and hd: "er_Headers r = firstValues (resp_Header resp)"
    by blast
  have hdr: "\<forall>key. er_Headers r key
                 = (case resp_Header resp key of
                      None \<Rightarrow> None
                    | Some vs \<Rightarrow> if vs = [] then None else Some (hd vs))"
    using hd firstValues_hd[of "resp_Header resp"] by simp
  show "\<exists>item execReq resp.
         c_row c = Row item \<and> bindOverrides (c_content c) = Inr execReq \<and>
         map (\<lambda>x. fst (snd x)) (requests (fst (ExecuteRequest cfg w c)))
           = [chooseURL execReq item] \<and>
         snd (do_hops cfg w (chooseURL execReq item) 0) = Inr resp \<and>
         (\<forall>key. er_Headers r key
                  = (case resp_Header resp key of
                       None \<Rightarrow> None
                     | Some vs \<Rightarrow> if vs = [] then None else Some (hd vs)))"
  proof (intro exI conjI)
    show "c_row c = Row item" by (rule row)
    show "bindOverrides (c_content c) = Inr execReq" by (rule bo)
    show "map (\<lambda>x. fst (snd x)) (requests (fst (ExecuteRequest cfg w c)))
            = [chooseURL execReq item]"
      by (rule rq)
    show "snd (do_hops cfg w (chooseURL execReq item) 0) = Inr resp" by (rule hop)
    show "\<forall>key. er_Headers r key
                 = (case resp_Header resp key of
                      None \<Rightarrow> None
                    | Some vs \<Rightarrow> if vs = [] then None else Some (hd vs))"
      by (rule hdr)
  qed
qed

theorem C8_response_headers_witness:
  "snd (executeHandler example_world
          (Inr \<lparr>a_Method = ''post'', a_URL = ''http://example.com/items'',
                a_Headers = Map.empty, a_Body = ''name=a''\<rparr>))
     = AgentExecuted \<lparr>ar_Status = 201, ar_StatusText = ''201 Created'',
                      ar_Headers = resp_Header created, ar_Body = ''id=1'',
                      ar_Duration = 12\<rparr> \<and>
   (\<exists>resp. snd (agent_do_hops example_world ''http://example.com/items'' 0) = Inr resp \<and>
           resp_Header created = resp_Header resp) \<and>
   resp_Header created ''Set-Cookie'' = Some [''a=1'', ''b=2''] \<and>
   snd (ExecuteRequest example_cfg example_world (example_call None))
     = Executed \<lparr>er_Status = 201, er_Headers = firstValues (resp_Header created),
                 er_Body = ''id=1'', er_DurationMs = 12\<rparr> \<and>
   c_row (example_call None) = Row example_item \<and>
   bindOverrides (c_content (example_call None))
     = Inr \<lparr>x_URL = None, x_Headers = None, x_Body = None\<rparr> \<and>
   chooseURL \<lparr>x_URL = None, x_Headers = None, x_Body = None\<rparr> example_item
     = ''http://example.com/items'' \<and>
   map (\<lambda>x. fst (snd x))
       (requests (fst (ExecuteRequest example_cfg example_world (example_call None))))
     = [''http://example.com/items''] \<and>
   (\<exists>resp. snd (do_hops example_cfg example_world ''http://example.com/items'' 0) = Inr resp \<and>
           firstValues (resp_Header created) ''Set-Cookie''
             = (case resp_Header resp ''Set-Cookie'' of
                  None \<Rightarrow> None
                | Some vs \<Rightarrow> if vs = [] then None else Some (hd vs)))"
proof -
  let ?q = "\<lparr>a_Method = ''post'', a_URL = ''http://example.com/items'',
             a_Headers = Map.empty, a_Body = ''name=a''\<rparr>"
  let ?ar = "\<lparr>ar_Status = 201, ar_StatusText = ''201 Created'',
              ar_Headers = resp_Header created, ar_Body = ''id=1'', ar_Duration = 12\<rparr>"
  let ?er = "\<lparr>er_Status = 201, er_Headers = firstValues (resp_Header created),
              er_Body = ''id=1'', er_DurationMs = 12\<rparr>"
  let ?x = "\<lparr>x_URL = None, x_Headers = None, x_Body = None\<rparr>"
  note th = C8_response_headers[of example_world "Inr ?q" example_cfg "example_call None"]
  have a: "snd (executeHandler example_world (Inr ?q)) = AgentExecuted ?ar"
    by (simp add: example_agent_executed)
  have p: "snd (ExecuteRequest example_cfg example_world (example_call None)) = Executed ?er"
    by (simp add: example_executed)
  have row: "c_row (example_call None) = Row example_item"
    by (simp add: example_call_def)
  have bo: "bindOverrides (c_content (example_call None)) = Inr ?x"
    by (simp add: example_call_def bindOverrides_def)
  have cu: "chooseURL ?x example_item = ''http://example.com/items''"
    by (simp add: chooseURL_def example_item_def)
  from th[THEN conjunct1, rule_format, OF a]
  have a': "\<exists>resp. snd (agent_do_hops example_world ''http://example.com/items'' 0) = Inr resp \<and>
           resp_Header created = resp_Header resp"
    by auto
  from th[THEN conjunct2, rule_format, OF p] obtain item execReq resp where
    t: "c_row (example_call None) = Row item"
       "bindOverrides (c_content (example_call None)) = Inr execReq"
       "map (\<lambda>x. fst (snd x))
            (requests (fst (ExecuteRequest example_cfg example_world (example_call None))))
          = [chooseURL execReq item]"
       "snd (do_hops example_cfg example_world (chooseURL execReq item) 0) = Inr resp"
       "\<forall>key. er_Headers ?er key
                 = (case resp_Header resp key of
                      None \<Rightarrow> None
                    | Some vs \<Rightarrow> if vs = [] then None else Some (hd vs))"
    by (elim exE conjE) (rule that)
  from t(1) row have i: "item = example_item" by simp
  from t(2) bo have x: "execReq = ?x" by simp
  from t(3) have rq: "map (\<lambda>x. fst (snd x))
       (requests (fst (ExecuteRequest example_cfg example_world (example_call None))))
     = [''http://example.com/items'']"
    unfolding i x cu .
  from t(4) have hop: "snd (do_hops example_cfg example_world ''http://example.com/items'' 0) = Inr resp"
    unfolding i x cu .
  from t(5)[rule_format, of "''Set-Cookie''"]
  have hv: "firstValues (resp_Header created) ''Set-Cookie''
             = (case resp_Header resp ''Set-Cookie'' of
                  None \<Rightarrow> None
                | Some vs \<Rightarrow> if vs = [] then None else Some (hd vs))"
    by simp
  from hop hv
  have p': "\<exists>resp. snd (do_hops example_cfg example_world ''http://example.com/items'' 0) = Inr resp \<and>
           firstValues (resp_Header created) ''Set-Cookie''
             = (case resp_Header resp ''Set-Cookie'' of
                  None \<Rightarrow> None
                | Some vs \<Rightarrow> if vs = [] then None else Some (hd vs))"
    by blast
  have s: "resp_Header created ''Set-Cookie'' = Some [''a=1'', ''b=2'']"
    by (simp add: created_def)
  from a a' s p row bo cu rq p' show ?thesis by (simp only: simp_thms)
qed

text \<open>
  C9. In both engines, the first request of a call carries a body exactly when the body
  supplied is not empty and the method, upper-cased, is POST, PUT, PATCH or DELETE; the
  body it carries is then the one supplied. In particular a GET request carries none.
\<close>

theorem C9_body_attached:
  "(\<forall>x \<in> set (requests (fst (executeHTTPRequest cfg w m u h b))).
      snd (snd x)
        = (if b \<noteq> '''' \<and> ToUpper m \<in> {''POST'', ''PUT'', ''PATCH'', ''DELETE''}
           then Some b else None) \<and>
      (ToUpper m = ''GET'' \<longrightarrow> snd (snd x) = None)) \<and>
   (\<forall>x \<in> set (requests (fst (agent_executeHTTPRequest w q))).
      snd (snd x)
        = (if a_Body q \<noteq> '''' \<and> ToUpper (a_Method q) \<in> {''POST'', ''PUT'', ''PATCH'', ''DELETE''}
           then Some (a_Body q) else None) \<and>
      (ToUpper (a_Method q) = ''GET'' \<longrightarrow> snd (snd x) = None))"
proof -
  have pb: "prepareBody mm bb
              = (if bb \<noteq> '''' \<and> ToUpper mm \<in> {''POST'', ''PUT'', ''PATCH'', ''DELETE''}
                 then Some bb else None)" for mm bb
    by (simp add: prepareBody_def Let_def)
  have get: "ToUpper mm = ''GET'' \<Longrightarrow> prepareBody mm bb = None" for mm bb
    by (simp add: prepareBody_def Let_def)
  have public: "\<forall>x \<in> set (requests (fst (executeHTTPRequest cfg w m u h b))).
      snd (snd x) = prepareBody m b"
    using executeHTTPRequest_requests[of cfg w m u h b] by auto
  have agent: "\<forall>x \<in> set (requests (fst (agent_executeHTTPRequest w q))).
      snd (snd x) = prepareBody (a_Method q) (a_Body q)"
    using agent_executeHTTPRequest_requests[of w q] by auto
  show ?thesis
  proof (intro conjI ballI impI)
    fix x
    assume "x \<in> set (requests (fst (executeHTTPRequest cfg w m u h b)))"
    with public have x: "snd (snd x) = prepareBody m b" by blast
    show "snd (snd x)
            = (if b \<noteq> '''' \<and> ToUpper m \<in> {''POST'', ''PUT'', ''PATCH'', ''DELETE''}
               then Some b else None)"
      unfolding x by (rule pb)
    show "snd (snd x) = None" if "ToUpper m = ''GET''"
      unfolding x using that by (rule get)
  next
    fix x
    assume "x \<in> set (requests (fst (agent_executeHTTPRequest w q)))"
    with agent have x: "snd (snd x) = prepareBody (a_Method q) (a_Body q)" by blast
    show "snd (snd x)
            = (if a_Body q \<noteq> '''' \<and> ToUpper (a_Method q) \<in> {''POST'', ''PUT'', ''PATCH'', ''DELETE''}
               then Some (a_Body q) else None)"
      unfolding x by (rule pb)
    show "snd (snd x) = None" if "ToUpper (a_Method q) = ''GET''"
      unfolding x using that by (rule get)
  qed
qed

theorem C9_body_attached_witness:
  "requests (fst (executeHTTPRequest example_cfg example_world
                    ''post'' ''http://example.com/items'' Map.empty ''name=a''))
     = [(''post'', ''http://example.com/items'', Some ''name=a'')] \<and>
   ToUpper ''post'' \<in> {''POST'', ''PUT'', ''PATCH'', ''DELETE''} \<and>
   requests (fst (executeHTTPRequest example_cfg example_world
                    ''GET'' ''http://example.com/items'' Map.empty ''name=a''))
     = [(''GET'', ''http://example.com/items'', None)] \<and>
   requests (fst (agent_executeHTTPRequest example_world
                    \<lparr>a_Method = ''GET'', a_URL = ''http://example.com/items'',
                     a_Headers = Map.empty, a_Body = ''name=a''\<rparr>))
     = [(''GET'', ''http://example.com/items'', None)]"
proof -
  let ?u = "''http://example.com/items''"
  let ?q = "\<lparr>a_Method = ''GET'', a_URL = ?u, a_Headers = Map.empty, a_Body = ''name=a''\<rparr>"
  have up: "ToUpper ''post'' = ''POST''" "ToUpper ''GET'' = ''GET''"
    by (simp_all add: ToUpper_def upper_byte_def)
  have r1: "requests (fst (executeHTTPRequest example_cfg example_world ''post'' ?u Map.empty ''name=a''))
              = [(''post'', ?u, prepareBody ''post'' ''name=a'')]"
    using executeHTTPRequest_sends[of example_world "''post''" ?u "''name=a''" _ example_cfg Map.empty]
          example_NewRequest(2)
    by (simp add: example_prepareBody)
  have r2: "requests (fst (executeHTTPRequest example_cfg example_world ''GET'' ?u Map.empty ''name=a''))
              = [(''GET'', ?u, prepareBody ''GET'' ''name=a'')]"
    using executeHTTPRequest_sends[of example_world "''GET''" ?u "''name=a''" _ example_cfg Map.empty]
          example_NewRequest(3)
    by (simp add: example_prepareBody)
  have r3: "requests (fst (agent_executeHTTPRequest example_world ?q))
              = [(''GET'', ?u, prepareBody ''GET'' ''name=a'')]"
    using agent_executeHTTPRequest_sends[of example_world ?q] example_NewRequest(3)
    by (simp add: example_prepareBody)
  note th1 = C9_body_attached[of example_cfg example_world "''post''" ?u Map.empty "''name=a''" ?q,
      THEN conjunct1, unfolded r1, simplified]
  note th2 = C9_body_attached[of example_cfg example_world "''GET''" ?u Map.empty "''name=a''" ?q,
      THEN conjunct1, unfolded r2, simplified]
  note th3 = C9_body_attached[of example_cfg example_world "''GET''" ?u Map.empty "''name=a''" ?q,
      THEN conjunct2, unfolded r3, simplified]
  from th1 th2 th3 show ?thesis
    unfolding r1 r2 r3 by (simp add: up)
qed

end
